theory Spec2Isabelle
  imports Complex_Main
begin

section \<open>Data model of the recommendation engine\<close>

text \<open>
  A JavaScript number is an IEEE 754 double. A finite double is a rational, and a value
  \<open>v\<close> of type \<open>number\<close> stands for the double nearest to it, \<open>fl v\<close>: a double stands for
  itself, and a decimal literal of the source such as \<^verbatim>\<open>1.1\<close> is written as the decimal.
  Comparisons and maxima do not round. The operators \<^verbatim>\<open>+\<close>, \<^verbatim>\<open>*\<close> and \<^verbatim>\<open>/\<close> round their
  exact result to the nearest double, ties to even (\<open>fadd\<close>, \<open>fmul\<close>, \<open>fdiv\<close>). NaN, the
  infinities and overflow are outside the model; every value the engine computes lies
  between 0 and 4. Movie, genre and user ids are integers.
\<close>

type_synonym number = rat

text \<open>The number of binary digits of a positive integer.\<close>

function bit_length :: "int \<Rightarrow> int" where
  "bit_length n = (if n \<le> 0 then 0 else 1 + bit_length (n div 2))"
  by pat_completeness auto
termination
  by (relation "measure nat") auto

declare bit_length.simps [simp del]

text \<open>
  The exponent \<open>e\<close> with \<open>2\<^sup>e \<le> |x| < 2\<^sup>e\<^sup>+\<^sup>1\<close> of a rational other than 0: the difference of
  the bit lengths of numerator and denominator, or one less.
\<close>

definition binary_exponent :: "rat \<Rightarrow> int" where
  "binary_exponent x =
     (let (p, q) = quotient_of \<bar>x\<bar>;
          d = bit_length p - bit_length q
      in if 2 powi d \<le> \<bar>x\<bar> then d else d - 1)"

definition round_half_even :: "rat \<Rightarrow> int" where
  "round_half_even y =
     (let f = \<lfloor>y\<rfloor>; r = y - of_int f
      in if r < 1 / 2 then f else if 1 / 2 < r then f + 1
         else if even f then f else f + 1)"

text \<open>
  Rounding to binary64: 53 significant bits, the spacing of the doubles around \<open>x\<close> is
  \<open>2\<^sup>e\<^sup>-\<^sup>5\<^sup>2\<close>, and below \<open>2\<^sup>-\<^sup>1\<^sup>0\<^sup>2\<^sup>2\<close> (the subnormal range) it stays \<open>2\<^sup>-\<^sup>1\<^sup>0\<^sup>7\<^sup>4\<close>.
\<close>

definition fl :: "rat \<Rightarrow> number" where
  "fl x =
     (if x = 0 then 0
      else let e = max (binary_exponent x) (- 1022);
               ulp = 2 powi (e - 52)
           in of_int (round_half_even (x / ulp)) * ulp)"

text \<open>
  The operators, on the doubles that their operands stand for: an operand that is a double
  already is left as it is, a decimal literal becomes its double. The engine divides only
  by the length of a list that is not empty.
\<close>

definition fadd :: "number \<Rightarrow> number \<Rightarrow> number" where
  "fadd a b = fl (fl a + fl b)"

definition fmul :: "number \<Rightarrow> number \<Rightarrow> number" where
  "fmul a b = fl (fl a * fl b)"

definition fdiv :: "number \<Rightarrow> number \<Rightarrow> number" where
  "fdiv a b = fl (fl a / fl b)"

text \<open>\<^verbatim>\<open>interface Movie\<close>; the field \<^verbatim>\<open>id\<close> is called \<open>id_movie\<close> here.\<close>

record Movie =
  id_movie :: int
  title :: string
  vote_average :: number
  vote_count :: int
  popularity :: number
  release_date :: string
  original_language :: string
  genre_ids :: "int list"

text \<open>\<^verbatim>\<open>interface RecommendationScore\<close>.\<close>

record RecommendationScore =
  movieId :: int
  score :: number
  genreMatch :: number
  languageMatch :: number
  collaborativeScore :: number

section \<open>The merger\<close>

text \<open>
  \<^verbatim>\<open>Map<number, RecommendationScore>\<close> iterates in insertion order, and assigning to a
  field of a stored object keeps the entry at its position. The map is an association
  list in insertion order with the three operations the merger uses.
\<close>

type_synonym movieMap = "(int \<times> RecommendationScore) list"

definition map_has :: "movieMap \<Rightarrow> int \<Rightarrow> bool" where
  "map_has m k = (k \<in> set (map fst m))"

definition map_set_new :: "movieMap \<Rightarrow> int \<Rightarrow> RecommendationScore \<Rightarrow> movieMap" where
  "map_set_new m k v = m @ [(k, v)]"

text \<open>
  The branch \<^verbatim>\<open>movieMap.has(rec.movieId)\<close>: the stored object for the key takes, in each
  of the three components, \<^verbatim>\<open>Math.max\<close> of its own value and the new entry's value.
\<close>

fun max_into :: "RecommendationScore \<Rightarrow> movieMap \<Rightarrow> movieMap" where
  "max_into rec [] = []"
| "max_into rec ((k, existingRec) # m) =
     (if k = movieId rec
      then (k, existingRec\<lparr>
              genreMatch := max (genreMatch existingRec) (genreMatch rec),
              languageMatch := max (languageMatch existingRec) (languageMatch rec),
              collaborativeScore := max (collaborativeScore existingRec) (collaborativeScore rec)\<rparr>) # m
      else (k, existingRec) # max_into rec m)"

definition merge_step :: "movieMap \<Rightarrow> RecommendationScore \<Rightarrow> movieMap" where
  "merge_step m rec =
     (if map_has m (movieId rec) then max_into rec m
      else map_set_new m (movieId rec) rec)"

definition merge_loop :: "RecommendationScore list \<Rightarrow> movieMap" where
  "merge_loop recommendations = foldl merge_step [] recommendations"

definition final_score :: "RecommendationScore \<Rightarrow> RecommendationScore" where
  "final_score rec =
     rec\<lparr>score := fadd (fadd (genreMatch rec) (languageMatch rec)) (collaborativeScore rec)\<rparr>"

definition mergeAndScoreRecommendations ::
    "RecommendationScore list \<Rightarrow> RecommendationScore list" where
  "mergeAndScoreRecommendations recommendations =
     map final_score (map snd (merge_loop recommendations))"

text \<open>The maximum of one component over the input entries that carry a given movie id.\<close>

definition field_max ::
    "(RecommendationScore \<Rightarrow> number) \<Rightarrow> RecommendationScore list \<Rightarrow> int \<Rightarrow> number" where
  "field_max f recs k = Max (f ` {x \<in> set recs. movieId x = k})"

section \<open>The metadata provider\<close>

text \<open>
  Every provider call is \<^verbatim>\<open>axios.get(url, {params})\<close>. The four URLs the engine uses are
  the constructors of \<open>endpoint\<close>; \<open>MovieSimilar i\<close> is \<^verbatim>\<open>/movie/${i}/similar\<close>.
  A parameter value is a string, a number, the comma-joined text of a genre id list
  (\<^verbatim>\<open>genres.join(',')\<close>, kept as the list), the configured API key, or \<^verbatim>\<open>undefined\<close>.
\<close>

datatype error = Error string

datatype endpoint = DiscoverMovie | MoviePopular | TrendingMovieWeek | MovieSimilar int

datatype param = PStr string | PNum number | PJoin "int list" | PApiKey | PUndefined

record request =
  url :: endpoint
  params :: "(string \<times> param) list"

text \<open>
  The provider answers a request with the \<^verbatim>\<open>response.data.results\<close> page or fails (network
  error, rate limit, malformed body); its answer may depend on all requests made before.
  \<open>axios_get\<close> performs one call and records it in the list of calls made so far.
\<close>

type_synonym provider = "request list \<Rightarrow> request \<Rightarrow> error + Movie list"

definition axios_get ::
    "provider \<Rightarrow> request \<Rightarrow> request list \<Rightarrow> (error + Movie list) \<times> request list" where
  "axios_get prov req calls = (prov calls req, calls @ [req])"

section \<open>Stored users and interactions\<close>

text \<open>
  The tables of \<^verbatim>\<open>schema.ts\<close> that the engine reads or writes, as lists of rows in table
  order. Serial row ids, timestamps, and the password and email columns are left out:
  the engine never reads them. A nullable column is an \<open>option\<close>.
\<close>

record UserPreferences =
  genres :: "int list option"
  languages :: "string list option"
  favoriteMovies :: "int list option"
  country :: "string option"

record User =
  id_user :: int
  username :: string
  preferences :: "UserPreferences option"
  experiencePoints :: "int option"
  level :: "string option"
  watchedCount :: "int option"

record MovieRating =
  userId_rating :: int
  movieId_rating :: int
  rating :: int

record UserMovieRecommendation =
  userId_rec :: int
  movieId_rec :: int
  score_rec :: number
  genreMatch_rec :: "number option"
  languageMatch_rec :: "number option"
  collaborativeScore_rec :: "number option"
  recommended :: "bool option"

record storage =
  users :: "User list"
  watchedMovies :: "(int \<times> int) list"
  movieRatings :: "MovieRating list"
  movieLikes :: "(int \<times> int) list"
  userMovieRecommendations :: "UserMovieRecommendation list"

definition getUser :: "storage \<Rightarrow> int \<Rightarrow> User option" where
  "getUser db i = find (\<lambda>u. id_user u = i) (users db)"

record UserLevelInfo =
  level_name :: string
  level_xp :: int
  level_watched :: int

text \<open>\<^verbatim>\<open>x || d\<close> on a nullable string or number: the default replaces null, \<^verbatim>\<open>''\<close> and 0.\<close>

definition str_or :: "string option \<Rightarrow> string \<Rightarrow> string" where
  "str_or x d = (case x of None \<Rightarrow> d | Some s \<Rightarrow> if s = [] then d else s)"

definition int_or :: "int option \<Rightarrow> int \<Rightarrow> int" where
  "int_or x d = (case x of None \<Rightarrow> d | Some n \<Rightarrow> if n = 0 then d else n)"

definition getUserLevel :: "storage \<Rightarrow> int \<Rightarrow> UserLevelInfo" where
  "getUserLevel db userId =
     (case getUser db userId of
        None \<Rightarrow> \<lparr>level_name = ''Beginner'', level_xp = 0, level_watched = 0\<rparr>
      | Some user \<Rightarrow>
          \<lparr>level_name = str_or (level user) ''Beginner'',
           level_xp = int_or (experiencePoints user) 0,
           level_watched = int_or (watchedCount user) 0\<rparr>)"

definition getWatchedMovies :: "storage \<Rightarrow> int \<Rightarrow> int list" where
  "getWatchedMovies db userId = map snd (filter (\<lambda>r. fst r = userId) (watchedMovies db))"

definition getUserRatings :: "storage \<Rightarrow> int \<Rightarrow> MovieRating list" where
  "getUserRatings db userId = filter (\<lambda>r. userId_rating r = userId) (movieRatings db)"

definition getUserLikes :: "storage \<Rightarrow> int \<Rightarrow> int list" where
  "getUserLikes db userId = map snd (filter (\<lambda>r. fst r = userId) (movieLikes db))"

definition clearUserRecommendations :: "storage \<Rightarrow> int \<Rightarrow> storage" where
  "clearUserRecommendations db userId =
     db\<lparr>userMovieRecommendations :=
          filter (\<lambda>r. userId_rec r \<noteq> userId) (userMovieRecommendations db)\<rparr>"

text \<open>
  \<^verbatim>\<open>saveRecommendation\<close> is an upsert: the first row of the (user, movie) pair, when there
  is one, is updated in place; otherwise a new row is inserted, with the column default
  \<^verbatim>\<open>recommended = true\<close>.
\<close>

fun update_first ::
    "('a \<Rightarrow> bool) \<Rightarrow> ('a \<Rightarrow> 'a) \<Rightarrow> 'a list \<Rightarrow> 'a list" where
  "update_first P f [] = []"
| "update_first P f (r # rs) = (if P r then f r # rs else r # update_first P f rs)"

definition saveRecommendation ::
    "storage \<Rightarrow> int \<Rightarrow> int \<Rightarrow> number \<Rightarrow> number \<Rightarrow> number \<Rightarrow> number \<Rightarrow> storage" where
  "saveRecommendation db userId mId sc gm lm cs =
     (let rows = userMovieRecommendations db;
          same = (\<lambda>r. userId_rec r = userId \<and> movieId_rec r = mId)
      in case find same rows of
           Some existing \<Rightarrow>
             db\<lparr>userMovieRecommendations :=
                  update_first same
                    (\<lambda>r. r\<lparr>score_rec := sc, genreMatch_rec := Some gm,
                            languageMatch_rec := Some lm, collaborativeScore_rec := Some cs,
                            recommended := Some True\<rparr>) rows\<rparr>
         | None \<Rightarrow>
             db\<lparr>userMovieRecommendations :=
                  rows @ [\<lparr>userId_rec = userId, movieId_rec = mId, score_rec = sc,
                            genreMatch_rec = Some gm, languageMatch_rec = Some lm,
                            collaborativeScore_rec = Some cs, recommended = Some True\<rparr>]\<rparr>)"

section \<open>Signal generators\<close>

text \<open>
  Each generator returns its candidate list together with the extended list of provider
  calls. A failed provider call is caught by the generator's \<^verbatim>\<open>try/catch\<close>.
\<close>

definition candidate :: "int \<Rightarrow> number \<Rightarrow> number \<Rightarrow> number \<Rightarrow> RecommendationScore" where
  "candidate i gm lm cs =
     \<lparr>movieId = i, score = 0, genreMatch = gm, languageMatch = lm, collaborativeScore = cs\<rparr>"

text \<open>\<^verbatim>\<open>user.preferences?.genres || []\<close> and \<^verbatim>\<open>user.preferences?.languages || []\<close>.\<close>

definition pref_genres :: "User \<Rightarrow> int list" where
  "pref_genres user =
     (case preferences user of None \<Rightarrow> []
      | Some p \<Rightarrow> (case genres p of None \<Rightarrow> [] | Some gs \<Rightarrow> gs))"

definition pref_languages :: "User \<Rightarrow> string list" where
  "pref_languages user =
     (case preferences user of None \<Rightarrow> []
      | Some p \<Rightarrow> (case languages p of None \<Rightarrow> [] | Some ls \<Rightarrow> ls))"

text \<open>\<^verbatim>\<open>user.preferences?.country\<close>; \<^verbatim>\<open>!country\<close> holds of undefined and of the empty string.\<close>

definition pref_country :: "User \<Rightarrow> string option" where
  "pref_country user = (case preferences user of None \<Rightarrow> None | Some p \<Rightarrow> country p)"

definition falsy_str :: "string option \<Rightarrow> bool" where
  "falsy_str c = (case c of None \<Rightarrow> True | Some s \<Rightarrow> s = [])"

text \<open>\<^verbatim>\<open>user.preferences?.languages?.[0] || "en"\<close>.\<close>

definition first_language_or_en :: "User \<Rightarrow> string" where
  "first_language_or_en user =
     (case pref_languages user of [] \<Rightarrow> ''en'' | l # _ \<Rightarrow> if l = [] then ''en'' else l)"

subsection \<open>Genre-based\<close>

definition genre_request :: "int list \<Rightarrow> request" where
  "genre_request gs =
     \<lparr>url = DiscoverMovie,
      params = [(''api_key'', PApiKey), (''language'', PStr ''en-US''),
                (''with_genres'', PJoin gs), (''sort_by'', PStr ''popularity.desc''),
                (''page'', PNum 1)]\<rparr>"

definition genre_candidate :: "int list \<Rightarrow> Movie \<Rightarrow> RecommendationScore" where
  "genre_candidate gs movie =
     (let matchingGenres = filter (\<lambda>i. i \<in> set gs) (genre_ids movie);
          genreMatchScore = fdiv (of_nat (length matchingGenres)) (of_nat (length gs))
      in candidate (id_movie movie) (fmul genreMatchScore 1.2) 0 0)"

definition getGenreBasedRecommendations ::
    "provider \<Rightarrow> User \<Rightarrow> request list \<Rightarrow> RecommendationScore list \<times> request list" where
  "getGenreBasedRecommendations prov user calls =
     (let gs = pref_genres user
      in if length gs = 0 then ([], calls)
         else (case axios_get prov (genre_request gs) calls of
                 (Inr results, calls') \<Rightarrow> (map (genre_candidate gs) results, calls')
               | (Inl e, calls') \<Rightarrow> ([], calls')))"

subsection \<open>Language-based\<close>

definition language_request :: "string \<Rightarrow> request" where
  "language_request l =
     \<lparr>url = DiscoverMovie,
      params = [(''api_key'', PApiKey), (''with_original_language'', PStr l),
                (''sort_by'', PStr ''vote_average.desc''), (''vote_count.gte'', PNum 100),
                (''page'', PNum 1)]\<rparr>"

fun language_loop ::
    "provider \<Rightarrow> string list \<Rightarrow> RecommendationScore list \<Rightarrow> request list
       \<Rightarrow> RecommendationScore list \<times> request list" where
  "language_loop prov [] allRecommendations calls = (allRecommendations, calls)"
| "language_loop prov (l # ls) allRecommendations calls =
     (case axios_get prov (language_request l) calls of
        (Inr results, calls') \<Rightarrow>
          language_loop prov ls
            (allRecommendations @ map (\<lambda>movie. candidate (id_movie movie) 0 1.1 0) results) calls'
      | (Inl e, calls') \<Rightarrow> language_loop prov ls allRecommendations calls')"

definition getLanguageBasedRecommendations ::
    "provider \<Rightarrow> User \<Rightarrow> request list \<Rightarrow> RecommendationScore list \<times> request list" where
  "getLanguageBasedRecommendations prov user calls =
     (let ls = pref_languages user
      in if length ls = 0 then ([], calls) else language_loop prov ls [] calls)"

subsection \<open>Country-based\<close>

definition country_request :: "string \<Rightarrow> string \<Rightarrow> request" where
  "country_request c l =
     \<lparr>url = DiscoverMovie,
      params = [(''api_key'', PApiKey), (''region'', PStr c),
                (''sort_by'', PStr ''popularity.desc''), (''vote_count.gte'', PNum 50),
                (''page'', PNum 1), (''with_original_language'', PStr l)]\<rparr>"

definition getCountryBasedRecommendations ::
    "provider \<Rightarrow> User \<Rightarrow> request list \<Rightarrow> RecommendationScore list \<times> request list" where
  "getCountryBasedRecommendations prov user calls =
     (case pref_country user of
        None \<Rightarrow> ([], calls)
      | Some c \<Rightarrow>
          if c = [] then ([], calls)
          else (case axios_get prov (country_request c (first_language_or_en user)) calls of
                  (Inr results, calls') \<Rightarrow>
                    (map (\<lambda>movie. candidate (id_movie movie) 0 0 1.3) results, calls')
                | (Inl e, calls') \<Rightarrow> ([], calls')))"

subsection \<open>Level-based\<close>

text \<open>The \<^verbatim>\<open>switch (level)\<close>: one request per case, and the request of the default branch.\<close>

definition beginner_request :: request where
  "beginner_request =
     \<lparr>url = DiscoverMovie,
      params = [(''api_key'', PApiKey), (''sort_by'', PStr ''popularity.desc''),
                (''vote_average.gte'', PNum 7.5), (''vote_count.gte'', PNum 1000),
                (''page'', PNum 1)]\<rparr>"

definition explorer_request :: request where
  "explorer_request =
     \<lparr>url = DiscoverMovie,
      params = [(''api_key'', PApiKey), (''sort_by'', PStr ''vote_average.desc''),
                (''vote_count.gte'', PNum 500), (''page'', PNum 1),
                (''with_keywords'', PStr ''classic,acclaimed'')]\<rparr>"

definition cinephile_request :: request where
  "cinephile_request =
     \<lparr>url = DiscoverMovie,
      params = [(''api_key'', PApiKey), (''sort_by'', PStr ''vote_average.desc''),
                (''vote_count.gte'', PNum 200), (''page'', PNum 1),
                (''with_keywords'', PStr ''arthouse,cult,foreign'')]\<rparr>"

definition connoisseur_request :: request where
  "connoisseur_request =
     \<lparr>url = DiscoverMovie,
      params = [(''api_key'', PApiKey), (''sort_by'', PStr ''vote_average.desc''),
                (''page'', PNum 1),
                (''with_keywords'', PStr ''experimental,masterpiece,auteur,avant-garde'')]\<rparr>"

definition default_request :: request where
  "default_request =
     \<lparr>url = DiscoverMovie,
      params = [(''api_key'', PApiKey), (''sort_by'', PStr ''vote_average.desc''),
                (''vote_count.gte'', PNum 1000), (''page'', PNum 1)]\<rparr>"

definition level_request :: "string \<Rightarrow> request" where
  "level_request lvl =
     (if lvl = ''Beginner'' then beginner_request
      else if lvl = ''Explorer'' then explorer_request
      else if lvl = ''Cinephile'' then cinephile_request
      else if lvl = ''Connoisseur'' then connoisseur_request
      else default_request)"

definition getLevelBasedRecommendations ::
    "provider \<Rightarrow> string \<Rightarrow> request list \<Rightarrow> RecommendationScore list \<times> request list" where
  "getLevelBasedRecommendations prov lvl calls =
     (case axios_get prov (level_request lvl) calls of
        (Inr recommendations, calls') \<Rightarrow>
          (map (\<lambda>movie. candidate (id_movie movie) 0 0 1.0) recommendations, calls')
      | (Inl e, calls') \<Rightarrow> ([], calls'))"

subsection \<open>Collaborative similarity\<close>

text \<open>\<^verbatim>\<open>new Set([...])\<close> keeps the first occurrence of each element, in insertion order.\<close>

definition new_Set :: "'a list \<Rightarrow> 'a list" where
  "new_Set xs = foldl (\<lambda>acc x. if x \<in> set acc then acc else acc @ [x]) [] xs"

definition similar_request :: "int \<Rightarrow> request" where
  "similar_request mId =
     \<lparr>url = MovieSimilar mId,
      params = [(''api_key'', PApiKey), (''language'', PStr ''en-US''), (''page'', PNum 1)]\<rparr>"

fun similar_loop ::
    "provider \<Rightarrow> int list \<Rightarrow> int list \<Rightarrow> RecommendationScore list \<Rightarrow> request list
       \<Rightarrow> RecommendationScore list \<times> request list" where
  "similar_loop prov userMovieInteractions [] recommendations calls = (recommendations, calls)"
| "similar_loop prov userMovieInteractions (mId # sampleMovies) recommendations calls =
     (case axios_get prov (similar_request mId) calls of
        (Inr results, calls') \<Rightarrow>
          similar_loop prov userMovieInteractions sampleMovies
            (recommendations @
               map (\<lambda>movie. candidate (id_movie movie) 0 0 1.5)
                 (filter (\<lambda>movie. id_movie movie \<notin> set userMovieInteractions) results))
            calls'
      | (Inl e, calls') \<Rightarrow>
          similar_loop prov userMovieInteractions sampleMovies recommendations calls')"

definition getCollaborativeRecommendations ::
    "provider \<Rightarrow> storage \<Rightarrow> int \<Rightarrow> request list
       \<Rightarrow> RecommendationScore list \<times> request list" where
  "getCollaborativeRecommendations prov db userId calls =
     (let userWatchedMovies = getWatchedMovies db userId;
          userRatings = getUserRatings db userId;
          userLikes = getUserLikes db userId;
          highlyRatedMovies = map movieId_rating (filter (\<lambda>r. rating r \<ge> 7) userRatings);
          userMovieInteractions = new_Set (userWatchedMovies @ highlyRatedMovies @ userLikes)
      in if length userMovieInteractions = 0 then ([], calls)
         else similar_loop prov userMovieInteractions (take 3 userMovieInteractions) [] calls)"

subsection \<open>Trending fallback\<close>

definition trending_request :: request where
  "trending_request =
     \<lparr>url = TrendingMovieWeek,
      params = [(''api_key'', PApiKey), (''language'', PStr ''en-US'')]\<rparr>"

definition getTrendingRecommendations ::
    "provider \<Rightarrow> request list \<Rightarrow> RecommendationScore list \<times> request list" where
  "getTrendingRecommendations prov calls =
     (case axios_get prov trending_request calls of
        (Inr results, calls') \<Rightarrow>
          (map (\<lambda>movie. candidate (id_movie movie) 0 0 0.8) results, calls')
      | (Inl e, calls') \<Rightarrow> ([], calls'))"

section \<open>The orchestrator\<close>

text \<open>
  \<^verbatim>\<open>Array.prototype.sort(compareFn)\<close> is stable (ECMAScript 2019): it is modelled by a stable
  insertion sort that places an element before the first later element that the
  comparator does not order in front of it.
\<close>

fun sort_insert :: "('a \<Rightarrow> 'a \<Rightarrow> number) \<Rightarrow> 'a \<Rightarrow> 'a list \<Rightarrow> 'a list" where
  "sort_insert compareFn a [] = [a]"
| "sort_insert compareFn a (b # bs) =
     (if compareFn a b \<le> 0 then a # b # bs else b # sort_insert compareFn a bs)"

definition array_sort :: "('a \<Rightarrow> 'a \<Rightarrow> number) \<Rightarrow> 'a list \<Rightarrow> 'a list" where
  "array_sort compareFn xs = foldr (sort_insert compareFn) xs []"

text \<open>The comparator \<^verbatim>\<open>(a, b) => b.score - a.score\<close>.\<close>

definition by_score_desc :: "RecommendationScore \<Rightarrow> RecommendationScore \<Rightarrow> number" where
  "by_score_desc a b = score b - score a"

text \<open>Steps 1 to 5 of \<^verbatim>\<open>generateRecommendationsForUser\<close>: the five sources, concatenated.\<close>

definition sources_1_to_5 ::
    "provider \<Rightarrow> storage \<Rightarrow> User \<Rightarrow> int \<Rightarrow> request list
       \<Rightarrow> RecommendationScore list \<times> request list" where
  "sources_1_to_5 prov db user userId calls =
     (let userLevel = getUserLevel db userId;
          (countryRecommendations, calls1) = getCountryBasedRecommendations prov user calls;
          (genreRecommendations, calls2) = getGenreBasedRecommendations prov user calls1;
          (languageRecommendations, calls3) = getLanguageBasedRecommendations prov user calls2;
          (levelRecommendations, calls4) =
             getLevelBasedRecommendations prov (level_name userLevel) calls3;
          (collaborativeRecommendations, calls5) =
             getCollaborativeRecommendations prov db userId calls4
      in ([] @ countryRecommendations @ genreRecommendations @ languageRecommendations
             @ levelRecommendations @ collaborativeRecommendations, calls5))"

text \<open>Step 6: the trending fallback, behind \<^verbatim>\<open>recommendations.length < 20\<close>.\<close>

definition all_sources ::
    "provider \<Rightarrow> storage \<Rightarrow> User \<Rightarrow> int \<Rightarrow> request list
       \<Rightarrow> RecommendationScore list \<times> request list" where
  "all_sources prov db user userId calls =
     (case sources_1_to_5 prov db user userId calls of
        (recommendations, calls5) \<Rightarrow>
          if length recommendations < 20
          then (case getTrendingRecommendations prov calls5 of
                  (trendingRecommendations, calls6) \<Rightarrow>
                    (recommendations @ trendingRecommendations, calls6))
          else (recommendations, calls5))"

definition save_all :: "storage \<Rightarrow> int \<Rightarrow> RecommendationScore list \<Rightarrow> storage" where
  "save_all db userId sortedRecommendations =
     foldl (\<lambda>d rec. saveRecommendation d userId (movieId rec) (score rec) (genreMatch rec)
                      (languageMatch rec) (collaborativeScore rec))
       db sortedRecommendations"

text \<open>
  The result of a run is the rejected or resolved promise, the storage afterwards and the
  provider calls made so far.
\<close>

definition generateRecommendationsForUser ::
    "provider \<Rightarrow> int \<Rightarrow> storage \<Rightarrow> request list
       \<Rightarrow> (error + int list) \<times> storage \<times> request list" where
  "generateRecommendationsForUser prov userId db calls =
     (case getUser db userId of
        None \<Rightarrow> (Inl (Error ''User not found''), db, calls)
      | Some user \<Rightarrow>
          (let db1 = clearUserRecommendations db userId;
               (recommendations, calls') = all_sources prov db1 user userId calls;
               mergedRecommendations = mergeAndScoreRecommendations recommendations;
               sortedRecommendations = array_sort by_score_desc mergedRecommendations;
               db2 = save_all db1 userId sortedRecommendations
           in (Inr (map movieId sortedRecommendations), db2, calls')))"

section \<open>The onboarding recommender\<close>

text \<open>\<^verbatim>\<open>xs?.length\<close> as a condition: the list is defined and not empty.\<close>

definition has_length :: "'a list option \<Rightarrow> bool" where
  "has_length xs = (case xs of None \<Rightarrow> False | Some l \<Rightarrow> length l \<noteq> 0)"

definition popular_request :: request where
  "popular_request =
     \<lparr>url = MoviePopular,
      params = [(''api_key'', PApiKey), (''language'', PStr ''en-US''), (''page'', PNum 1)]\<rparr>"

definition combined_request :: "int list \<Rightarrow> string \<Rightarrow> string \<Rightarrow> request" where
  "combined_request gs l c =
     \<lparr>url = DiscoverMovie,
      params = [(''api_key'', PApiKey), (''language'', PStr ''en-US''),
                (''with_genres'', PJoin gs), (''with_original_language'', PStr l),
                (''region'', PStr c), (''sort_by'', PStr ''popularity.desc''),
                (''page'', PNum 1)]\<rparr>"

definition region_request :: "string \<Rightarrow> request" where
  "region_request c =
     \<lparr>url = DiscoverMovie,
      params = [(''api_key'', PApiKey), (''region'', PStr c),
                (''sort_by'', PStr ''popularity.desc''), (''page'', PNum 1)]\<rparr>"

text \<open>\<^verbatim>\<open>genres?.join(',')\<close> and \<^verbatim>\<open>languages?.[0]\<close> of the third pass.\<close>

definition genreParam :: "UserPreferences \<Rightarrow> param" where
  "genreParam prefs = (case genres prefs of None \<Rightarrow> PUndefined | Some gs \<Rightarrow> PJoin gs)"

definition languageParam :: "UserPreferences \<Rightarrow> param" where
  "languageParam prefs =
     (case languages prefs of None \<Rightarrow> PUndefined | Some [] \<Rightarrow> PUndefined
      | Some (l # _) \<Rightarrow> PStr l)"

definition genre_language_request :: "UserPreferences \<Rightarrow> request" where
  "genre_language_request prefs =
     \<lparr>url = DiscoverMovie,
      params = [(''api_key'', PApiKey), (''language'', PStr ''en-US''),
                (''with_genres'', genreParam prefs),
                (''with_original_language'', languageParam prefs),
                (''sort_by'', PStr ''popularity.desc''), (''page'', PNum 1)]\<rparr>"

text \<open>Appending the movies of a page whose id is not among the results so far.\<close>

definition push_new :: "Movie list \<Rightarrow> Movie list \<Rightarrow> Movie list" where
  "push_new allResults results =
     allResults @ filter (\<lambda>movie. id_movie movie \<notin> set (map id_movie allResults)) results"

definition combined_pass ::
    "provider \<Rightarrow> UserPreferences \<Rightarrow> Movie list \<Rightarrow> request list \<Rightarrow> Movie list \<times> request list" where
  "combined_pass prov prefs allResults calls =
     (case (genres prefs, languages prefs, country prefs) of
        (Some gs, Some (l # ls), Some c) \<Rightarrow>
          if length gs \<noteq> 0 \<and> c \<noteq> []
          then (case axios_get prov (combined_request gs l c) calls of
                  (Inr results, calls') \<Rightarrow> (allResults @ results, calls')
                | (Inl e, calls') \<Rightarrow> (allResults, calls'))
          else (allResults, calls)
      | _ \<Rightarrow> (allResults, calls))"

definition country_pass ::
    "provider \<Rightarrow> UserPreferences \<Rightarrow> Movie list \<Rightarrow> request list \<Rightarrow> Movie list \<times> request list" where
  "country_pass prov prefs allResults calls =
     (case country prefs of
        None \<Rightarrow> (allResults, calls)
      | Some c \<Rightarrow>
          if c \<noteq> [] \<and> length allResults < 15
          then (case axios_get prov (region_request c) calls of
                  (Inr results, calls') \<Rightarrow> (push_new allResults results, calls')
                | (Inl e, calls') \<Rightarrow> (allResults, calls'))
          else (allResults, calls))"

definition genre_language_pass ::
    "provider \<Rightarrow> UserPreferences \<Rightarrow> Movie list \<Rightarrow> request list \<Rightarrow> Movie list \<times> request list" where
  "genre_language_pass prov prefs allResults calls =
     (if (has_length (genres prefs) \<or> has_length (languages prefs))
          \<and> length allResults < 15
      then (case axios_get prov (genre_language_request prefs) calls of
              (Inr results, calls') \<Rightarrow> (push_new allResults results, calls')
            | (Inl e, calls') \<Rightarrow> (allResults, calls'))
      else (allResults, calls))"

text \<open>
  The body of the outer \<^verbatim>\<open>try\<close>: \<open>Inl\<close> is an exception that leaves it, which only the
  two calls for the popular page can raise; the three passes catch their own.
\<close>

definition popular_ids ::
    "provider \<Rightarrow> Movie list \<Rightarrow> request list \<Rightarrow> (error + int list) \<times> request list" where
  "popular_ids prov allResults calls =
     (case axios_get prov popular_request calls of
        (Inr results, calls') \<Rightarrow> (Inr (map id_movie (take 20 (allResults @ results))), calls')
      | (Inl e, calls') \<Rightarrow> (Inl e, calls'))"

definition onboarding_try ::
    "provider \<Rightarrow> UserPreferences \<Rightarrow> request list \<Rightarrow> (error + int list) \<times> request list" where
  "onboarding_try prov prefs calls =
     (if \<not> has_length (genres prefs) \<and> \<not> has_length (languages prefs)
          \<and> falsy_str (country prefs)
      then popular_ids prov [] calls
      else
        (let (allResults1, calls1) = combined_pass prov prefs [] calls;
             (allResults2, calls2) = country_pass prov prefs allResults1 calls1;
             (allResults3, calls3) = genre_language_pass prov prefs allResults2 calls2
         in if length allResults3 = 0 then popular_ids prov allResults3 calls3
            else (Inr (map id_movie (take 20 allResults3)), calls3)))"

definition getOnboardingRecommendations ::
    "provider \<Rightarrow> UserPreferences \<Rightarrow> request list \<Rightarrow> (error + int list) \<times> request list" where
  "getOnboardingRecommendations prov prefs calls =
     (case onboarding_try prov prefs calls of
        (Inl e, calls') \<Rightarrow> (Inr [], calls')
      | (Inr ids, calls') \<Rightarrow> (Inr ids, calls'))"

section \<open>Notions used in the statements\<close>

text \<open>An entry of the merge map is right for a prefix of the input.\<close>

definition entry_ok :: "RecommendationScore list \<Rightarrow> int \<Rightarrow> RecommendationScore \<Rightarrow> bool" where
  "entry_ok recs k v \<longleftrightarrow>
     movieId v = k \<and> genreMatch v = field_max genreMatch recs k
     \<and> languageMatch v = field_max languageMatch recs k
     \<and> collaborativeScore v = field_max collaborativeScore recs k"

text \<open>An input entry with the score it carries wiped.\<close>

definition erase_score :: "RecommendationScore \<Rightarrow> RecommendationScore" where
  "erase_score r = r\<lparr>score := 0\<rparr>"

text \<open>The calls \<open>calls'\<close> continue \<open>calls\<close> with requests that all satisfy \<open>P\<close>.\<close>

definition extends_by :: "(request \<Rightarrow> bool) \<Rightarrow> request list \<Rightarrow> request list \<Rightarrow> bool" where
  "extends_by P calls calls' \<longleftrightarrow>
     take (length calls) calls' = calls \<and> list_all P (drop (length calls) calls')"

definition not_trending :: "request \<Rightarrow> bool" where
  "not_trending r \<longleftrightarrow> url r \<noteq> TrendingMovieWeek"

text \<open>
  The genre fraction in the words of the specification: the number of the user's preferred
  genre ids present on the movie, over the number of the user's preferred genre ids,
  times 1.2 (\<open>|movie.genres \<inter> user.genres| / |user.genres| \<times> 1.2\<close>), the quotient and the
  product being those of doubles.
\<close>

definition spec_genreMatch :: "int list \<Rightarrow> Movie \<Rightarrow> number" where
  "spec_genreMatch gs movie =
     fmul (fdiv (of_nat (card (set (genre_ids movie) \<inter> set gs))) (of_nat (card (set gs)))) 1.2"




subsection \<open>Sample data\<close>

definition sample_movie :: "int \<Rightarrow> int list \<Rightarrow> Movie" where
  "sample_movie i gs =
     \<lparr>id_movie = i, title = ''Movie'', vote_average = 7.9, vote_count = 1200,
      popularity = 35, release_date = ''1999-03-31'', original_language = ''en'',
      genre_ids = gs\<rparr>"

definition sample_user :: "int \<Rightarrow> UserPreferences option \<Rightarrow> User" where
  "sample_user i p =
     \<lparr>id_user = i, username = ''ada'', preferences = p, experiencePoints = Some 0,
      level = Some ''Beginner'', watchedCount = Some 0\<rparr>"

definition sample_db :: "User \<Rightarrow> storage" where
  "sample_db u =
     \<lparr>users = [u], watchedMovies = [], movieRatings = [], movieLikes = [],
      userMovieRecommendations = []\<rparr>"

definition genre_prefs :: "int list \<Rightarrow> UserPreferences" where
  "genre_prefs gs =
     \<lparr>genres = Some gs, languages = Some [], favoriteMovies = Some [], country = None\<rparr>"

text \<open>A provider that answers every request with the same page, and one that is down.\<close>

definition constant_provider :: "Movie list \<Rightarrow> provider" where
  "constant_provider page calls req = Inr page"

definition failing_provider :: provider where
  "failing_provider calls req = Inl (Error ''Network Error'')"


text \<open>A provider whose trending page differs from its other pages.\<close>

definition two_page_provider :: "Movie list \<Rightarrow> Movie list \<Rightarrow> provider" where
  "two_page_provider page trending calls req =
     (if url req = TrendingMovieWeek then Inr trending else Inr page)"

section \<open>Properties of the rounding\<close>

text \<open>
  The exponent found by \<open>binary_exponent\<close> is the right one, a double is its own rounding
  (\<open>fl_idempotent\<close>), and rounding preserves the order (\<open>fl_mono\<close>), so that comparing
  two numbers or taking their maximum agrees with comparing the doubles they stand for.
\<close>

lemma bit_length_pos: "0 < n \<Longrightarrow> 1 \<le> bit_length n"
proof (induction n rule: bit_length.induct)
  case (1 n)
  show ?case
  proof (cases "0 < n div 2")
    case True
    with 1 have "1 \<le> bit_length (n div 2)" by simp
    with 1 show ?thesis by (subst bit_length.simps) simp
  next
    case False
    then have "bit_length (n div 2) = 0" by (subst bit_length.simps) simp
    with 1 show ?thesis by (subst bit_length.simps) simp
  qed
qed

lemma bit_length_bounds:
  "0 < n \<Longrightarrow> 2 ^ nat (bit_length n - 1) \<le> n \<and> n < 2 ^ nat (bit_length n)"
proof (induction n rule: bit_length.induct)
  case (1 n)
  have eq: "bit_length n = 1 + bit_length (n div 2)"
    using 1(2) by (subst bit_length.simps) simp
  show ?case
  proof (cases "0 < n div 2")
    case False
    with 1(2) have "n = 1" by linarith
    moreover have "bit_length (1 div 2) = 0" by (subst bit_length.simps) simp
    ultimately show ?thesis using eq by simp
  next
    case True
    with 1 have ih: "2 ^ nat (bit_length (n div 2) - 1) \<le> n div 2"
        "n div 2 < 2 ^ nat (bit_length (n div 2))" by simp_all
    from True have p: "1 \<le> bit_length (n div 2)" by (rule bit_length_pos)
    then have s: "nat (bit_length (n div 2)) = Suc (nat (bit_length (n div 2) - 1))"
      by simp
    have "2 * 2 ^ nat (bit_length (n div 2) - 1) \<le> 2 * (n div 2)" using ih(1) by simp
    also have "\<dots> \<le> n" by simp
    finally have lo: "2 ^ nat (bit_length n - 1) \<le> n"
      using s by (simp add: eq)
    have "n < 2 * (n div 2) + 2" by linarith
    also have "\<dots> \<le> 2 * 2 ^ nat (bit_length (n div 2))" using ih(2) by simp
    finally have hi: "n < 2 ^ nat (bit_length n)"
      using p by (simp add: eq nat_add_distrib)
    from lo hi show ?thesis ..
  qed
qed


lemma of_int_bit_length_bounds:
  assumes "0 < n"
  shows "(2::rat) powi (bit_length n - 1) \<le> of_int n" "of_int n < (2::rat) powi bit_length n"
proof -
  from bit_length_pos[OF assms] have p: "1 \<le> bit_length n" .
  from bit_length_bounds[OF assms]
  have lo: "2 ^ nat (bit_length n - 1) \<le> n" and hi: "n < 2 ^ nat (bit_length n)" by simp_all
  from lo have "(of_int (2 ^ nat (bit_length n - 1)) :: rat) \<le> of_int n"
    by (simp only: of_int_le_iff)
  then show "(2::rat) powi (bit_length n - 1) \<le> of_int n"
    using p by (simp add: power_int_def)
  from hi have "(of_int n :: rat) < of_int (2 ^ nat (bit_length n))"
    by (simp only: of_int_less_iff)
  then show "of_int n < (2::rat) powi bit_length n"
    using p by (simp add: power_int_def)
qed

lemma binary_exponent_bounds:
  assumes "x \<noteq> 0"
  shows "2 powi binary_exponent x \<le> \<bar>x\<bar>" "\<bar>x\<bar> < 2 powi (binary_exponent x + 1)"
proof -
  obtain p q where pq: "quotient_of \<bar>x\<bar> = (p, q)" by force
  then have q: "0 < q" by (rule quotient_of_denom_pos)
  from pq have x: "\<bar>x\<bar> = of_int p / of_int q" by (rule quotient_of_div)
  from assms have "0 < \<bar>x\<bar>" by simp
  with x q have p: "0 < p" by (simp add: zero_less_divide_iff)
  let ?d = "bit_length p - bit_length q"
  note bp = of_int_bit_length_bounds[OF p] and bq = of_int_bit_length_bounds[OF q]
  have pos: "(0::rat) < 2 powi k" for k by simp
  have "(of_int p :: rat) / of_int q < 2 powi bit_length p / 2 powi (bit_length q - 1)"
    using p q bp(2) bq(1) pos by (intro frac_less) simp_all
  also have "\<dots> = 2 powi (?d + 1)"
    by (simp add: power_int_diff power_int_add)
  finally have hi: "\<bar>x\<bar> < 2 powi (?d + 1)" by (simp add: x)
  have "(2::rat) powi (bit_length p - 1) / 2 powi bit_length q < of_int p / of_int q"
    using p q bp(1) bq(2) pos by (intro frac_less2) simp_all
  moreover have "2 powi (bit_length p - 1) / 2 powi bit_length q = (2::rat) powi (?d - 1)"
    by (simp add: power_int_diff)
  ultimately have lo: "2 powi (?d - 1) < \<bar>x\<bar>" by (simp add: x)
  have e: "binary_exponent x = (if 2 powi ?d \<le> \<bar>x\<bar> then ?d else ?d - 1)"
    by (simp add: binary_exponent_def pq Let_def)
  show "2 powi binary_exponent x \<le> \<bar>x\<bar>"
    using lo by (simp add: e)
  show "\<bar>x\<bar> < 2 powi (binary_exponent x + 1)"
    using hi by (auto simp: e)
qed

lemma powi_less_imp_less: "(2::rat) powi m < 2 powi n \<Longrightarrow> m < n"
proof (rule ccontr)
  assume a: "(2::rat) powi m < 2 powi n" and "\<not> m < n"
  then have "n \<le> m" by simp
  then have "(2::rat) powi n \<le> 2 powi m" by (rule power_int_increasing) simp
  with a show False by simp
qed

lemma binary_exponent_unique:
  assumes "x \<noteq> 0" "2 powi e \<le> \<bar>x\<bar>" "\<bar>x\<bar> < 2 powi (e + 1)"
  shows "binary_exponent x = e"
proof -
  note b = binary_exponent_bounds[OF assms(1)]
  have "(2::rat) powi e < 2 powi (binary_exponent x + 1)"
    using assms(2) b(2) by (rule le_less_trans)
  then have 1: "e < binary_exponent x + 1"
    by (rule powi_less_imp_less)
  have "(2::rat) powi binary_exponent x < 2 powi (e + 1)"
    using b(1) assms(3) by (rule le_less_trans)
  then have 2: "binary_exponent x < e + 1"
    by (rule powi_less_imp_less)
  from 1 2 show ?thesis by simp
qed

lemma round_half_even_of_int: "round_half_even (of_int n) = n"
  by (simp add: round_half_even_def)

lemma round_half_even_ge: "of_int k \<le> y \<Longrightarrow> k \<le> round_half_even y"
proof -
  assume "of_int k \<le> y"
  then have "k \<le> \<lfloor>y\<rfloor>" by (simp add: le_floor_iff)
  moreover have "\<lfloor>y\<rfloor> \<le> round_half_even y"
    by (simp add: round_half_even_def Let_def)
  ultimately show ?thesis by simp
qed

lemma round_half_even_le: "y \<le> of_int k \<Longrightarrow> round_half_even y \<le> k"
proof -
  assume a: "y \<le> of_int k"
  then have f: "\<lfloor>y\<rfloor> \<le> k" by (simp add: floor_le_iff le_less_trans)
  show ?thesis
  proof (cases "\<lfloor>y\<rfloor> = k")
    case True
    with a have "y = of_int \<lfloor>y\<rfloor>" using of_int_floor_le[of y] by simp
    then have "round_half_even y = \<lfloor>y\<rfloor>"
      using round_half_even_of_int[of "\<lfloor>y\<rfloor>"] by simp
    with True show ?thesis by simp
  next
    case False
    with f have "\<lfloor>y\<rfloor> + 1 \<le> k" by simp
    moreover have "round_half_even y \<le> \<lfloor>y\<rfloor> + 1"
      by (simp add: round_half_even_def Let_def)
    ultimately show ?thesis by simp
  qed
qed


lemma fl_grid:
  assumes n: "0 < n" "n \<le> 2 ^ 53" and e: "- 1022 \<le> e" and ne: "e = - 1022 \<or> 2 ^ 52 \<le> n"
  shows "fl (of_int n * 2 powi (e - 52)) = of_int n * 2 powi (e - 52)"
proof -
  let ?u = "(2::rat) powi (e - 52)"
  let ?y = "of_int n * ?u"
  have u: "0 < ?u" by simp
  have y: "0 < ?y" using n(1) u by simp
  have y0: "?y \<noteq> 0" using y by (metis less_irrefl)
  have ay: "\<bar>?y\<bar> = ?y" using y by (rule abs_of_pos)
  have p52: "(2::rat) powi e = 2 ^ 52 * ?u" and p53: "(2::rat) powi (e + 1) = 2 ^ 53 * ?u"
    by (simp_all add: power_int_diff power_int_add)
  have same: "fl ?y = ?y" if "max (binary_exponent ?y) (- 1022) = e"
    using that y0 u by (simp add: fl_def Let_def round_half_even_of_int)
  show ?thesis
  proof (cases "n = 2 ^ 53")
    case True
    then have yv: "?y = 2 powi (e + 1)" by (simp add: p53)
    have "(2::rat) powi (e + 1) < 2 powi (e + 1 + 1)"
      by (rule power_int_strict_increasing) simp_all
    moreover have "\<bar>?y\<bar> = 2 powi (e + 1)" using ay yv by simp
    ultimately have "\<bar>?y\<bar> < 2 powi (e + 1 + 1)" "2 powi (e + 1) \<le> \<bar>?y\<bar>"
      by simp_all
    with y0 have "binary_exponent ?y = e + 1"
      by (intro binary_exponent_unique)
    then have m: "max (binary_exponent ?y) (- 1022) = e + 1" using e by simp
    have "?y / 2 powi (e + 1 - 52) = of_int (2 ^ 52)"
      by (simp add: True power_int_diff power_int_add)
    then have "round_half_even (?y / 2 powi (e + 1 - 52)) = 2 ^ 52"
      by (simp only: round_half_even_of_int)
    with m y0 show ?thesis
      by (simp add: fl_def Let_def True power_int_diff power_int_add)
  next
    case False
    with n have lt: "n < 2 ^ 53" by simp
    then have "(of_int n :: rat) < of_int (2 ^ 53)" by (simp only: of_int_less_iff)
    then have hi: "?y < 2 powi (e + 1)" using u by (simp add: p53)
    show ?thesis
    proof (cases "2 ^ 52 \<le> n")
      case True
      then have "(of_int (2 ^ 52) :: rat) \<le> of_int n" by (simp only: of_int_le_iff)
      then have lo: "2 powi e \<le> ?y" using u by (simp add: p52)
      have "binary_exponent ?y = e"
        using y0 by (rule binary_exponent_unique) (simp_all add: ay lo hi)
      with e have "max (binary_exponent ?y) (- 1022) = e" by simp
      then show ?thesis by (rule same)
    next
      case False
      with ne have e1: "e = - 1022" by simp
      from False have "n < 2 ^ 52" by simp
      then have "(of_int n :: rat) < of_int (2 ^ 52)" by (simp only: of_int_less_iff)
      then have "?y < 2 powi e" using u by (simp add: p52)
      with binary_exponent_bounds(1)[OF y0] have "(2::rat) powi binary_exponent ?y < 2 powi e"
        by (simp add: ay)
      then have "binary_exponent ?y < e" by (rule powi_less_imp_less)
      with e1 have "max (binary_exponent ?y) (- 1022) = e" by simp
      then show ?thesis by (rule same)
    qed
  qed
qed

lemma fl_idempotent_pos:
  assumes "0 < x"
  shows "fl (fl x) = fl x"
proof -
  let ?e = "max (binary_exponent x) (- 1022)"
  let ?u = "(2::rat) powi (?e - 52)"
  let ?n = "round_half_even (x / ?u)"
  from assms have x0: "x \<noteq> 0" and ax: "\<bar>x\<bar> = x" by simp_all
  have u: "0 < ?u" by simp
  have flx: "fl x = of_int ?n * ?u" using x0 by (simp add: fl_def Let_def)
  have p52: "(2::rat) powi ?e = 2 ^ 52 * ?u" and p53: "(2::rat) powi (?e + 1) = 2 ^ 53 * ?u"
    by (simp_all add: power_int_diff power_int_add)
  note b = binary_exponent_bounds[OF x0]
  have "\<bar>x\<bar> < 2 powi (?e + 1)"
  proof -
    have "binary_exponent x + 1 \<le> ?e + 1" by simp
    then have "(2::rat) powi (binary_exponent x + 1) \<le> 2 powi (?e + 1)"
      by (rule power_int_increasing) simp
    with b(2) show ?thesis by simp
  qed
  then have "x / ?u \<le> of_int (2 ^ 53)"
    using u by (simp add: ax p53 pos_divide_le_eq)
  then have n_hi: "?n \<le> 2 ^ 53" by (rule round_half_even_le)
  have "of_int 0 \<le> x / ?u" using assms u by simp
  then have n_lo: "0 \<le> ?n" by (rule round_half_even_ge)
  show ?thesis
  proof (cases "?n = 0")
    case True
    with flx have "fl x = 0" by simp
    then show ?thesis by (simp add: fl_def)
  next
    case False
    with n_lo have n_pos: "0 < ?n" by simp
    have "?e = - 1022 \<or> 2 ^ 52 \<le> ?n"
    proof (cases "binary_exponent x \<le> - 1022")
      case True
      then show ?thesis by simp
    next
      case False
      then have "?e = binary_exponent x" by simp
      with b(1) have "2 powi ?e \<le> x" by (simp add: ax)
      then have "of_int (2 ^ 52) \<le> x / ?u"
        using u by (simp add: p52 pos_le_divide_eq)
      then have "2 ^ 52 \<le> ?n" by (rule round_half_even_ge)
      then show ?thesis ..
    qed
    from fl_grid[OF n_pos n_hi _ this] show ?thesis by (simp add: flx)
  qed
qed

lemma round_half_even_minus: "round_half_even (- y) = - round_half_even y"
proof (cases "y = of_int \<lfloor>y\<rfloor>")
  case True
  then obtain k where "y = of_int k" ..
  then have "- y = of_int (- k)" by simp
  then show ?thesis using \<open>y = of_int k\<close> by (simp only: round_half_even_of_int)
next
  case False
  then have c: "\<lceil>y\<rceil> = \<lfloor>y\<rfloor> + 1"
    by (metis ceiling_altdef)
  have f: "\<lfloor>- y\<rfloor> = - \<lfloor>y\<rfloor> - 1"
    using c by (simp add: ceiling_def)
  show ?thesis
    by (auto simp: round_half_even_def Let_def f)
qed

lemma binary_exponent_minus: "binary_exponent (- x) = binary_exponent x"
  by (simp add: binary_exponent_def)

lemma fl_minus: "fl (- x) = - fl x"
  by (simp add: fl_def Let_def binary_exponent_minus round_half_even_minus)

lemma fl_idempotent: "fl (fl x) = fl x"
proof (cases x "0::rat" rule: linorder_cases)
  case less
  then have "fl (fl (- x)) = fl (- x)" by (intro fl_idempotent_pos) simp
  then show ?thesis by (simp add: fl_minus)
next
  case equal
  then show ?thesis by (simp add: fl_def)
next
  case greater
  then show ?thesis by (rule fl_idempotent_pos)
qed

lemma round_half_even_mono:
  assumes "a \<le> b"
  shows "round_half_even a \<le> round_half_even b"
proof (cases "\<lfloor>a\<rfloor> = \<lfloor>b\<rfloor>")
  case True
  with assms have "a - of_int \<lfloor>a\<rfloor> \<le> b - of_int \<lfloor>b\<rfloor>" by simp
  with True show ?thesis
    by (auto simp: round_half_even_def Let_def)
next
  case False
  from assms have "\<lfloor>a\<rfloor> \<le> \<lfloor>b\<rfloor>" by (rule floor_mono)
  with False have "\<lfloor>a\<rfloor> + 1 \<le> \<lfloor>b\<rfloor>" by simp
  moreover have "round_half_even a \<le> \<lfloor>a\<rfloor> + 1" "\<lfloor>b\<rfloor> \<le> round_half_even b"
    by (simp_all add: round_half_even_def Let_def)
  ultimately show ?thesis by simp
qed

text \<open>The rounded value of a positive rational, between the powers of two around it.\<close>

lemma fl_pos_bounds:
  assumes "0 < x"
  defines "e \<equiv> max (binary_exponent x) (- 1022)"
  shows "fl x \<le> 2 powi (e + 1)" "- 1022 < binary_exponent x \<Longrightarrow> 2 powi e \<le> fl x" "0 \<le> fl x"
proof -
  let ?u = "(2::rat) powi (e - 52)"
  let ?n = "round_half_even (x / ?u)"
  from assms have x0: "x \<noteq> 0" and ax: "\<bar>x\<bar> = x" by simp_all
  have u: "0 < ?u" by simp
  have flx: "fl x = of_int ?n * ?u" using x0 by (simp add: fl_def Let_def e_def)
  have p52: "(2::rat) powi e = 2 ^ 52 * ?u" and p53: "(2::rat) powi (e + 1) = 2 ^ 53 * ?u"
    by (simp_all add: power_int_diff power_int_add)
  note b = binary_exponent_bounds[OF x0]
  have "binary_exponent x + 1 \<le> e + 1" by (simp add: e_def)
  then have "(2::rat) powi (binary_exponent x + 1) \<le> 2 powi (e + 1)"
    by (rule power_int_increasing) simp
  with b(2) have "x < 2 powi (e + 1)" by (simp add: ax)
  then have "x / ?u \<le> of_int (2 ^ 53)"
    using u by (simp add: p53 pos_divide_le_eq)
  then have "?n \<le> 2 ^ 53" by (rule round_half_even_le)
  then have "(of_int ?n :: rat) \<le> of_int (2 ^ 53)" by (simp only: of_int_le_iff)
  then show "fl x \<le> 2 powi (e + 1)"
    using u by (simp add: flx p53)
  have "of_int 0 \<le> x / ?u" using assms(1) u by simp
  then have "0 \<le> ?n" by (rule round_half_even_ge)
  then show "0 \<le> fl x" using u by (simp add: flx)
  show "2 powi e \<le> fl x" if "- 1022 < binary_exponent x"
  proof -
    from that have "e = binary_exponent x" by (simp add: e_def)
    with b(1) have "2 powi e \<le> x" by (simp add: ax)
    then have "of_int (2 ^ 52) \<le> x / ?u"
      using u by (simp add: p52 pos_le_divide_eq)
    then have "2 ^ 52 \<le> ?n" by (rule round_half_even_ge)
    then have "(of_int (2 ^ 52) :: rat) \<le> of_int ?n" by (simp only: of_int_le_iff)
    then show ?thesis using u by (simp add: flx p52)
  qed
qed

lemma binary_exponent_mono:
  assumes "0 < x" "x \<le> y"
  shows "binary_exponent x \<le> binary_exponent y"
proof -
  from assms have x0: "x \<noteq> 0" and y0: "y \<noteq> 0" and a: "\<bar>x\<bar> = x" "\<bar>y\<bar> = y" by simp_all
  have "2 powi binary_exponent x \<le> x" using binary_exponent_bounds(1)[OF x0] a by simp
  also have "x \<le> y" by fact
  also have "y < 2 powi (binary_exponent y + 1)" using binary_exponent_bounds(2)[OF y0] a by simp
  finally have "binary_exponent x < binary_exponent y + 1" by (rule powi_less_imp_less)
  then show ?thesis by simp
qed

lemma fl_mono_pos:
  assumes "0 < x" "x \<le> y"
  shows "fl x \<le> fl y"
proof -
  let ?ex = "max (binary_exponent x) (- 1022)" and ?ey = "max (binary_exponent y) (- 1022)"
  from assms have y: "0 < y" and x0: "x \<noteq> 0" and y0: "y \<noteq> 0" by simp_all
  from binary_exponent_mono[OF assms] have le: "?ex \<le> ?ey" by simp
  show ?thesis
  proof (cases "?ex = ?ey")
    case True
    have "x / 2 powi (?ex - 52) \<le> y / 2 powi (?ex - 52)"
      using assms(2) by (simp add: divide_right_mono)
    then have "round_half_even (x / 2 powi (?ex - 52)) \<le> round_half_even (y / 2 powi (?ex - 52))"
      by (rule round_half_even_mono)
    then have "(of_int (round_half_even (x / 2 powi (?ex - 52))) :: rat)
         \<le> of_int (round_half_even (y / 2 powi (?ex - 52)))"
      by (simp only: of_int_le_iff)
    then have "of_int (round_half_even (x / 2 powi (?ex - 52))) * (2::rat) powi (?ex - 52)
         \<le> of_int (round_half_even (y / 2 powi (?ex - 52))) * 2 powi (?ex - 52)"
      by (rule mult_right_mono) simp
    then show ?thesis
      using x0 y0 True by (simp add: fl_def Let_def)
  next
    case False
    with le have lt: "?ex + 1 \<le> ?ey" and n: "- 1022 < binary_exponent y" by simp_all
    have "fl x \<le> 2 powi (?ex + 1)" using fl_pos_bounds(1)[OF assms(1)] .
    also have "(2::rat) powi (?ex + 1) \<le> 2 powi ?ey"
      using lt by (rule power_int_increasing) simp
    also have "2 powi ?ey \<le> fl y" using fl_pos_bounds(2)[OF y n] .
    finally show ?thesis .
  qed
qed

lemma fl_mono: "x \<le> y \<Longrightarrow> fl x \<le> fl y"
proof -
  assume le: "x \<le> y"
  consider "0 < x" | "x \<le> 0" "0 \<le> y" | "y < 0" by linarith
  then show ?thesis
  proof cases
    case 1
    then show ?thesis using le by (rule fl_mono_pos)
  next
    case 2
    have "fl x \<le> 0"
    proof (cases "x = 0")
      case True
      then show ?thesis by (simp add: fl_def)
    next
      case False
      with 2 have "0 < - x" by simp
      from fl_pos_bounds(3)[OF this] show ?thesis by (simp add: fl_minus)
    qed
    moreover have "0 \<le> fl y"
    proof (cases "y = 0")
      case True
      then show ?thesis by (simp add: fl_def)
    next
      case False
      with 2 have "0 < y" by simp
      then show ?thesis by (rule fl_pos_bounds(3))
    qed
    ultimately show ?thesis by simp
  next
    case 3
    with le have "0 < - y" "- y \<le> - x" by simp_all
    then have "fl (- y) \<le> fl (- x)" by (rule fl_mono_pos)
    then show ?thesis by (simp add: fl_minus)
  qed
qed

text \<open>Taking the maximum commutes with rounding: \<^verbatim>\<open>Math.max\<close> needs no rounding of its own.\<close>

lemma fl_max: "fl (max a b) = max (fl a) (fl b)"
proof (cases "a \<le> b")
  case True
  then have "fl a \<le> fl b" by (rule fl_mono)
  with True show ?thesis by (simp add: max_def)
next
  case False
  then have "b \<le> a" by simp
  then have "fl b \<le> fl a" by (rule fl_mono)
  with False show ?thesis by (auto simp: max_def)
qed

section \<open>Properties of the merger\<close>

lemma keys_max_into: "map fst (max_into rec m) = map fst m"
  by (induction m) auto

lemma map_of_max_into:
  "map_of (max_into rec m) k =
     (if k = movieId rec
      then map_option
             (\<lambda>e. e\<lparr>genreMatch := max (genreMatch e) (genreMatch rec),
                     languageMatch := max (languageMatch e) (languageMatch rec),
                     collaborativeScore := max (collaborativeScore e) (collaborativeScore rec)\<rparr>)
             (map_of m k)
      else map_of m k)"
  by (induction m) auto

lemma keys_merge_step:
  "map fst (merge_step m rec) =
     (if movieId rec \<in> set (map fst m) then map fst m else map fst m @ [movieId rec])"
  by (simp add: merge_step_def map_has_def map_set_new_def keys_max_into)

lemma merge_loop_snoc: "merge_loop (recs @ [x]) = merge_step (merge_loop recs) x"
  by (simp add: merge_loop_def)

lemma keys_merge_loop: "set (map fst (merge_loop recs)) = movieId ` set recs"
proof (induction recs rule: rev_induct)
  case Nil
  show ?case by (simp add: merge_loop_def)
next
  case (snoc x recs)
  then show ?case by (auto simp: merge_loop_snoc keys_merge_step)
qed

lemma distinct_merge_loop: "distinct (map fst (merge_loop recs))"
proof (induction recs rule: rev_induct)
  case Nil
  show ?case by (simp add: merge_loop_def)
next
  case (snoc x recs)
  then show ?case by (simp add: merge_loop_snoc keys_merge_step)
qed

text \<open>How the maximum over the entries of one id changes when one more entry is read.\<close>

lemma field_max_snoc:
  "field_max f (recs @ [x]) k =
     (if movieId x = k
      then (if k \<in> movieId ` set recs then max (field_max f recs k) (f x) else f x)
      else field_max f recs k)"
proof -
  let ?S = "{y \<in> set recs. movieId y = k}"
  have fin: "finite (f ` ?S)" by simp
  show ?thesis
  proof (cases "movieId x = k")
    case False
    then have "{y \<in> set (recs @ [x]). movieId y = k} = ?S" by auto
    with False show ?thesis by (simp add: field_max_def)
  next
    case True
    then have eq: "{y \<in> set (recs @ [x]). movieId y = k} = insert x ?S" by auto
    show ?thesis
    proof (cases "k \<in> movieId ` set recs")
      case False
      then have "?S = {}" by auto
      with True eq False show ?thesis by (simp add: field_max_def)
    next
      case In: True
      then have ne: "f ` ?S \<noteq> {}" by auto
      have "Max (insert (f x) (f ` ?S)) = max (f x) (Max (f ` ?S))"
        using fin ne by (rule Max_insert)
      with True eq In show ?thesis by (simp add: field_max_def max.commute)
    qed
  qed
qed

lemma map_of_merge_loop:
  "map_of (merge_loop recs) k = Some v \<Longrightarrow> entry_ok recs k v"
proof (induction recs arbitrary: v rule: rev_induct)
  case Nil
  then show ?case by (simp add: merge_loop_def)
next
  case (snoc x recs)
  show ?case
  proof (cases "map_has (merge_loop recs) (movieId x)")
    case True
    then have inK: "movieId x \<in> movieId ` set recs"
      using keys_merge_loop[of recs] by (simp add: map_has_def)
    show ?thesis
    proof (cases "k = movieId x")
      case False
      with snoc True show ?thesis
        by (auto simp: merge_loop_snoc merge_step_def map_of_max_into entry_ok_def field_max_snoc)
    next
      case keq: True
      from snoc.prems True keq obtain e where
        e: "map_of (merge_loop recs) k = Some e" and
        v: "v = e\<lparr>genreMatch := max (genreMatch e) (genreMatch x),
              languageMatch := max (languageMatch e) (languageMatch x),
              collaborativeScore := max (collaborativeScore e) (collaborativeScore x)\<rparr>"
        by (auto simp: merge_loop_snoc merge_step_def map_of_max_into)
      from snoc.IH[OF e] have "entry_ok recs k e" .
      with v keq inK show ?thesis
        by (simp add: entry_ok_def field_max_snoc)
    qed
  next
    case False
    then have notK: "movieId x \<notin> movieId ` set recs"
      using keys_merge_loop[of recs] by (simp add: map_has_def)
    from False have ml: "merge_loop (recs @ [x]) = merge_loop recs @ [(movieId x, x)]"
      by (simp add: merge_loop_snoc merge_step_def map_set_new_def)
    show ?thesis
    proof (cases "k = movieId x")
      case True
      with False have "map_of (merge_loop recs) k = None"
        by (simp add: map_has_def map_of_eq_None_iff)
      with snoc.prems ml True have "v = x" by (simp add: map_add_Some_iff)
      with True notK show ?thesis by (simp add: entry_ok_def field_max_snoc)
    next
      case kne: False
      with snoc.prems ml have "map_of (merge_loop recs) k = Some v"
        by (auto simp: map_add_Some_iff split: if_splits)
      from snoc.IH[OF this] kne show ?thesis
        by (auto simp: entry_ok_def field_max_snoc)
    qed
  qed
qed

lemma merge_loop_entry: "(k, v) \<in> set (merge_loop recs) \<Longrightarrow> entry_ok recs k v"
  using map_of_merge_loop distinct_merge_loop by (metis map_of_is_SomeI)

lemma merged_ids: "map movieId (mergeAndScoreRecommendations recs) = map fst (merge_loop recs)"
proof -
  have "\<forall>p \<in> set (merge_loop recs). movieId (snd p) = fst p"
    using merge_loop_entry[of _ _ recs] by (auto simp: entry_ok_def)
  then show ?thesis
    by (simp add: mergeAndScoreRecommendations_def final_score_def comp_def)
qed

text \<open>Every input id is emitted: the merger drops no movie.\<close>

lemma merged_ids_complete: "set (map movieId (mergeAndScoreRecommendations recs)) = movieId ` set recs"
  by (simp only: merged_ids keys_merge_loop)

text \<open>The score an input entry carries does not reach the output.\<close>

lemma map_has_erase: "map_has (map (apsnd erase_score) m) k = map_has m k"
  by (simp add: map_has_def comp_def)

lemma max_into_erase:
  "max_into (erase_score x) (map (apsnd erase_score) m) = map (apsnd erase_score) (max_into x m)"
  by (induction m) (auto simp: erase_score_def)

lemma merge_step_erase:
  "merge_step (map (apsnd erase_score) m) (erase_score x) = map (apsnd erase_score) (merge_step m x)"
proof -
  have "movieId (erase_score x) = movieId x" by (simp add: erase_score_def)
  then show ?thesis
    by (simp add: merge_step_def map_has_erase max_into_erase map_set_new_def)
qed

lemma merge_loop_erase:
  "merge_loop (map erase_score recs) = map (apsnd erase_score) (merge_loop recs)"
proof (induction recs rule: rev_induct)
  case Nil
  show ?case by (simp add: merge_loop_def)
next
  case (snoc x recs)
  then show ?case by (simp add: merge_loop_snoc merge_step_erase)
qed

lemma final_score_erase: "final_score (erase_score r) = final_score r"
  by (simp add: final_score_def erase_score_def)

lemma merge_erase:
  "mergeAndScoreRecommendations (map erase_score recs) = mergeAndScoreRecommendations recs"
  by (simp add: mergeAndScoreRecommendations_def merge_loop_erase comp_def final_score_erase)

lemmas merge_defs = mergeAndScoreRecommendations_def merge_loop_def merge_step_def map_has_def
  map_set_new_def final_score_def candidate_def

text \<open>
  C1. For every input list, each entry that \<open>mergeAndScoreRecommendations\<close> emits carries, in
  each of \<open>genreMatch\<close>, \<open>languageMatch\<close> and \<open>collaborativeScore\<close>, the maximum of that
  field over all input entries with the same movie id (the maximum, not the sum).
\<close>

theorem merged_fields_are_maxima:
  "\<forall>r \<in> set (mergeAndScoreRecommendations recs).
     genreMatch r = field_max genreMatch recs (movieId r) \<and>
     languageMatch r = field_max languageMatch recs (movieId r) \<and>
     collaborativeScore r = field_max collaborativeScore recs (movieId r)"
proof
  fix r assume "r \<in> set (mergeAndScoreRecommendations recs)"
  then obtain k v where kv: "(k, v) \<in> set (merge_loop recs)" and r: "r = final_score v"
    by (auto simp: mergeAndScoreRecommendations_def)
  from merge_loop_entry[OF kv] r
  show "genreMatch r = field_max genreMatch recs (movieId r) \<and>
     languageMatch r = field_max languageMatch recs (movieId r) \<and>
     collaborativeScore r = field_max collaborativeScore recs (movieId r)"
    by (simp add: entry_ok_def final_score_def)
qed

text \<open>
  Movie 2 is proposed with collaborative scores 1.3 and 1.5: the merged entry carries 1.5,
  their maximum, where the sum would be 2.8.
\<close>

theorem merged_fields_are_maxima_witness:
  "\<lparr>movieId = 2, score = 1.5, genreMatch = 0, languageMatch = 0, collaborativeScore = 1.5\<rparr>
     \<in> set (mergeAndScoreRecommendations
              [candidate 1 0.6 0 0, candidate 2 0 0 1.3, candidate 1 0 1.1 0, candidate 2 0 0 1.5])
   \<and> field_max collaborativeScore
        [candidate 1 0.6 0 0, candidate 2 0 0 1.3, candidate 1 0 1.1 0, candidate 2 0 0 1.5] 2 = 1.5
   \<and> field_max genreMatch
        [candidate 1 0.6 0 0, candidate 2 0 0 1.3, candidate 1 0 1.1 0, candidate 2 0 0 1.5] 2 = 0
   \<and> field_max languageMatch
        [candidate 1 0.6 0 0, candidate 2 0 0 1.3, candidate 1 0 1.1 0, candidate 2 0 0 1.5] 2 = 0"
proof -
  let ?recs = "[candidate 1 0.6 0 0, candidate 2 0 0 1.3, candidate 1 0 1.1 0, candidate 2 0 0 1.5]"
  let ?r = "\<lparr>movieId = 2, score = 1.5, genreMatch = 0, languageMatch = 0, collaborativeScore = 1.5\<rparr>"
  have m: "?r \<in> set (mergeAndScoreRecommendations ?recs)"
    by code_simp
  from merged_fields_are_maxima[of ?recs] m
  have "genreMatch ?r = field_max genreMatch ?recs (movieId ?r) \<and>
     languageMatch ?r = field_max languageMatch ?recs (movieId ?r) \<and>
     collaborativeScore ?r = field_max collaborativeScore ?recs (movieId ?r)"
    by blast
  with m show ?thesis by simp
qed

text \<open>
  C2, as stated: the merged entry with \<open>genreMatch\<close> 0.6, \<open>languageMatch\<close> 1.1 and
  \<open>collaborativeScore\<close> 0 has score 1.7. The genre generator's 0.6 (one of two preferred
  genres, times 1.2) and the language generator's 1.1 are doubles, and their sum lies
  midway between two doubles: the addition rounds it to 1.7000000000000002, the double
  after the one written 1.7, and the stored score is not the exact sum of the stored
  fields either.
\<close>

theorem merged_score_example_counterexample:
  "mergeAndScoreRecommendations
     [genre_candidate [28, 12] (sample_movie 603 [28, 16]), candidate 603 0 1.1 0]
   = [\<lparr>movieId = 603, score = 7656119366529844 / 4503599627370496,
        genreMatch = fl 0.6, languageMatch = 1.1, collaborativeScore = 0\<rparr>]
   \<and> fl 1.7 = 7656119366529843 / 4503599627370496
   \<and> fl 0.6 + fl 1.1 + fl 0 = 15312238733059687 / 9007199254740992
   \<and> (7656119366529844 / 4503599627370496 :: rat) \<noteq> fl 1.7
   \<and> (7656119366529844 / 4503599627370496 :: rat) \<noteq> fl 0.6 + fl 1.1 + fl 0"
  by code_simp

text \<open>
  C2, amended. For every input list, whatever scores the input entries carry, every entry
  of the merger's output has as \<open>score\<close> the double-precision sum
  \<open>(genreMatch + languageMatch) + collaborativeScore\<close> of that output entry, each addition
  rounded to the nearest double, and the output stays the same when the scores of the
  input entries are replaced by any others. An id with merged \<open>genreMatch\<close> 0.6,
  \<open>languageMatch\<close> 1.1 and \<open>collaborativeScore\<close> 0 has score 1.7000000000000002.
\<close>

theorem merged_score_is_double_sum:
  "(\<forall>r \<in> set (mergeAndScoreRecommendations recs).
      score r = fadd (fadd (genreMatch r) (languageMatch r)) (collaborativeScore r))
   \<and> mergeAndScoreRecommendations (map (\<lambda>r. r\<lparr>score := s r\<rparr>) recs)
       = mergeAndScoreRecommendations recs"
proof
  show "\<forall>r \<in> set (mergeAndScoreRecommendations recs).
      score r = fadd (fadd (genreMatch r) (languageMatch r)) (collaborativeScore r)"
    by (auto simp: mergeAndScoreRecommendations_def final_score_def)
  have h: "map erase_score (map (\<lambda>r. r\<lparr>score := s r\<rparr>) recs) = map erase_score recs"
    by (simp add: erase_score_def)
  have "mergeAndScoreRecommendations (map (\<lambda>r. r\<lparr>score := s r\<rparr>) recs)
       = mergeAndScoreRecommendations (map erase_score (map (\<lambda>r. r\<lparr>score := s r\<rparr>) recs))"
    by (rule merge_erase[symmetric])
  also have "\<dots> = mergeAndScoreRecommendations (map erase_score recs)"
    by (simp only: h)
  also have "\<dots> = mergeAndScoreRecommendations recs"
    by (rule merge_erase)
  finally show "mergeAndScoreRecommendations (map (\<lambda>r. r\<lparr>score := s r\<rparr>) recs)
       = mergeAndScoreRecommendations recs" .
qed

text \<open>
  The same movie from the genre generator (the double 0.6, carrying a stale score 9) and
  from the language generator (1.1): the merged entry has the score
  7656119366529844 / 4503599627370496, which is 1.7000000000000002.
\<close>

theorem merged_score_is_double_sum_witness:
  "\<lparr>movieId = 603, score = 7656119366529844 / 4503599627370496,
     genreMatch = fl 0.6, languageMatch = 1.1, collaborativeScore = 0\<rparr>
     \<in> set (mergeAndScoreRecommendations
              [\<lparr>movieId = 603, score = 9, genreMatch = fl 0.6, languageMatch = 0,
                 collaborativeScore = 0\<rparr>,
               \<lparr>movieId = 603, score = 0, genreMatch = 0, languageMatch = 1.1,
                 collaborativeScore = 0\<rparr>])
   \<and> fadd (fadd (fl 0.6) 1.1) 0 = 7656119366529844 / 4503599627370496"
proof -
  let ?recs = "[\<lparr>movieId = 603, score = 9, genreMatch = fl 0.6, languageMatch = 0,
                 collaborativeScore = 0\<rparr>,
               \<lparr>movieId = 603, score = 0, genreMatch = 0, languageMatch = 1.1,
                 collaborativeScore = 0\<rparr>]"
  let ?r = "\<lparr>movieId = 603, score = 7656119366529844 / 4503599627370496,
     genreMatch = fl 0.6, languageMatch = 1.1, collaborativeScore = 0\<rparr>"
  have m: "?r \<in> set (mergeAndScoreRecommendations ?recs)"
    by code_simp
  with merged_score_is_double_sum[of ?recs]
  have "score ?r = fadd (fadd (genreMatch ?r) (languageMatch ?r)) (collaborativeScore ?r)"
    by blast
  with m show ?thesis by simp
qed

text \<open>
  C3. For every input list, no two entries of the merger's output have the same movie id.
\<close>

theorem merged_ids_distinct: "distinct (map movieId (mergeAndScoreRecommendations recs))"
  by (simp add: merged_ids distinct_merge_loop)

section \<open>Properties of the orchestrator\<close>

subsection \<open>The sort\<close>

lemma set_sort_insert: "set (sort_insert c a bs) = insert a (set bs)"
  by (induction bs) auto

lemma sorted_sort_insert:
  "sorted_wrt (\<lambda>a b. score b \<le> score a) bs \<Longrightarrow>
   sorted_wrt (\<lambda>a b. score b \<le> score a) (sort_insert by_score_desc a bs)"
  by (induction bs) (auto simp: by_score_desc_def set_sort_insert)

lemma sorted_array_sort:
  "sorted_wrt (\<lambda>a b. score b \<le> score a) (array_sort by_score_desc xs)"
  unfolding array_sort_def by (induction xs) (simp_all add: sorted_sort_insert)

text \<open>
  An element that is moved behind another has a strictly smaller score, so the entries of
  one score keep their order.
\<close>

lemma filter_sort_insert:
  "filter (\<lambda>r. score r = s) (sort_insert by_score_desc a bs) =
     (if score a = s then a # filter (\<lambda>r. score r = s) bs else filter (\<lambda>r. score r = s) bs)"
  by (induction bs) (auto simp: by_score_desc_def)

lemma filter_array_sort:
  "filter (\<lambda>r. score r = s) (array_sort by_score_desc xs) = filter (\<lambda>r. score r = s) xs"
  unfolding array_sort_def by (induction xs) (simp_all add: filter_sort_insert)

lemmas generator_defs = getCountryBasedRecommendations_def getGenreBasedRecommendations_def
  getLanguageBasedRecommendations_def getLevelBasedRecommendations_def
  getCollaborativeRecommendations_def getTrendingRecommendations_def
  pref_country_def pref_genres_def pref_languages_def first_language_or_en_def
  genre_candidate_def candidate_def axios_get_def new_Set_def
  getWatchedMovies_def getUserRatings_def getUserLikes_def getUserLevel_def getUser_def
  str_or_def int_or_def

lemmas sample_defs = sample_movie_def sample_user_def sample_db_def genre_prefs_def
  constant_provider_def failing_provider_def two_page_provider_def

lemmas request_defs = genre_request_def language_request_def country_request_def
  beginner_request_def explorer_request_def cinephile_request_def connoisseur_request_def
  default_request_def level_request_def similar_request_def trending_request_def

text \<open>
  C4. The entries of a generation run are ordered non-increasingly by score, the returned
  movie ids are the ids of these entries in that order, and entries of equal score keep
  the relative order they have in the merged list (the sort is stable and has no second
  key).
\<close>

theorem generation_sorted_stable:
  assumes "getUser db userId = Some user"
  shows "let merged = mergeAndScoreRecommendations
                        (fst (all_sources prov (clearUserRecommendations db userId) user userId calls));
             sorted = array_sort by_score_desc merged
         in fst (generateRecommendationsForUser prov userId db calls) = Inr (map movieId sorted)
            \<and> sorted_wrt (\<lambda>a b. score b \<le> score a) sorted
            \<and> (\<forall>s. filter (\<lambda>r. score r = s) sorted = filter (\<lambda>r. score r = s) merged)"
  using assms
  by (simp add: generateRecommendationsForUser_def Let_def split_beta
        sorted_array_sort filter_array_sort)

text \<open>
  A user who prefers genres 28 and 12; the discover page holds movies 1, 2 and 4, the
  trending page movies 3 and 5. The scores are 1.6, 2.2 and 1.0, and 0.8 for both trending
  movies, which stay in page order.
\<close>

theorem generation_sorted_stable_witness:
  "getUser (sample_db (sample_user 1 (Some (genre_prefs [28, 12])))) 1
     = Some (sample_user 1 (Some (genre_prefs [28, 12])))
   \<and> fst (generateRecommendationsForUser
            (two_page_provider
               [sample_movie 1 [28, 16], sample_movie 2 [28, 12], sample_movie 4 [16]]
               [sample_movie 3 [], sample_movie 5 []])
            1 (sample_db (sample_user 1 (Some (genre_prefs [28, 12])))) [])
     = Inr [2, 1, 4, 3, 5]
   \<and> sorted_wrt (\<lambda>a b. score b \<le> score a)
        (array_sort by_score_desc
           (mergeAndScoreRecommendations
              (fst (all_sources
                      (two_page_provider
                         [sample_movie 1 [28, 16], sample_movie 2 [28, 12], sample_movie 4 [16]]
                         [sample_movie 3 [], sample_movie 5 []])
                      (clearUserRecommendations
                         (sample_db (sample_user 1 (Some (genre_prefs [28, 12])))) 1)
                      (sample_user 1 (Some (genre_prefs [28, 12]))) 1 []))))"
proof -
  let ?u = "sample_user 1 (Some (genre_prefs [28, 12]))"
  let ?p = "two_page_provider
               [sample_movie 1 [28, 16], sample_movie 2 [28, 12], sample_movie 4 [16]]
               [sample_movie 3 [], sample_movie 5 []]"
  have h: "getUser (sample_db ?u) 1 = Some ?u"
    by (simp add: getUser_def sample_db_def sample_user_def)
  have run: "fst (generateRecommendationsForUser ?p 1 (sample_db ?u) []) = Inr [2, 1, 4, 3, 5]"
    by code_simp
  from generation_sorted_stable[OF h, where prov = ?p and calls = "[]"]
  have "fst (generateRecommendationsForUser ?p 1 (sample_db ?u) [])
          = Inr (map movieId (array_sort by_score_desc (mergeAndScoreRecommendations
              (fst (all_sources ?p (clearUserRecommendations (sample_db ?u) 1) ?u 1 [])))))
        \<and> sorted_wrt (\<lambda>a b. score b \<le> score a)
            (array_sort by_score_desc (mergeAndScoreRecommendations
              (fst (all_sources ?p (clearUserRecommendations (sample_db ?u) 1) ?u 1 []))))"
    by (simp add: Let_def)
  with h run show ?thesis by simp
qed

text \<open>
  C5. For a user id that is the id of no stored user, \<open>generateRecommendationsForUser\<close>
  fails with the error ``User not found'', and the storage is the one before the call: no
  row is cleared, none is written, and no provider call is made.
\<close>

theorem missing_user_not_found:
  assumes "userId \<notin> id_user ` set (users db)"
  shows "generateRecommendationsForUser prov userId db calls
           = (Inl (Error ''User not found''), db, calls)"
proof -
  from assms have "getUser db userId = None"
    by (auto simp: getUser_def find_None_iff)
  then show ?thesis by (simp add: generateRecommendationsForUser_def)
qed

theorem missing_user_not_found_witness:
  "(2::int) \<notin> id_user ` set (users (sample_db (sample_user 1 None)))
   \<and> generateRecommendationsForUser (constant_provider [sample_movie 1 []]) 2
        (sample_db (sample_user 1 None)) []
      = (Inl (Error ''User not found''), sample_db (sample_user 1 None), [])"
proof -
  have h: "(2::int) \<notin> id_user ` set (users (sample_db (sample_user 1 None)))"
    by (simp add: sample_db_def sample_user_def)
  from missing_user_not_found[OF h, where prov = "constant_provider [sample_movie 1 []]" and calls = "[]"] h
  show ?thesis by simp
qed

subsection \<open>The provider calls of the five sources\<close>

lemma extends_by_iff: "extends_by P c c' \<longleftrightarrow> (\<exists>new. c' = c @ new \<and> list_all P new)"
proof
  assume "extends_by P c c'"
  then have "c' = c @ drop (length c) c'" "list_all P (drop (length c) c')"
    by (auto simp: extends_by_def) (metis append_take_drop_id)
  then show "\<exists>new. c' = c @ new \<and> list_all P new" by blast
next
  assume "\<exists>new. c' = c @ new \<and> list_all P new"
  then show "extends_by P c c'" by (auto simp: extends_by_def)
qed

lemma extends_by_refl: "extends_by P c c"
  by (simp add: extends_by_def)

lemma extends_by_trans: "extends_by P a b \<Longrightarrow> extends_by P b c \<Longrightarrow> extends_by P a c"
  by (auto simp: extends_by_iff)

lemma country_calls: "extends_by not_trending c (snd (getCountryBasedRecommendations prov user c))"
  by (auto simp: getCountryBasedRecommendations_def extends_by_def axios_get_def not_trending_def
      country_request_def split: option.splits sum.splits)

lemma genre_calls: "extends_by not_trending c (snd (getGenreBasedRecommendations prov user c))"
  by (auto simp: getGenreBasedRecommendations_def extends_by_def axios_get_def not_trending_def
      genre_request_def Let_def split: option.splits sum.splits)

lemma language_loop_calls: "extends_by not_trending c (snd (language_loop prov ls acc c))"
proof (induction ls arbitrary: acc c)
  case Nil
  show ?case by (simp add: extends_by_refl)
next
  case (Cons l ls)
  have step: "extends_by not_trending c (c @ [language_request l])"
    by (simp add: extends_by_def not_trending_def language_request_def)
  show ?case
    using extends_by_trans[OF step Cons.IH]
    by (simp add: axios_get_def split: sum.splits)
qed

lemma language_calls:
  "extends_by not_trending c (snd (getLanguageBasedRecommendations prov user c))"
  by (simp add: getLanguageBasedRecommendations_def Let_def extends_by_refl language_loop_calls)

lemma level_request_url: "url (level_request lvl) = DiscoverMovie"
  by (simp add: level_request_def beginner_request_def explorer_request_def
      cinephile_request_def connoisseur_request_def default_request_def)

lemma level_calls: "extends_by not_trending c (snd (getLevelBasedRecommendations prov lvl c))"
  by (auto simp: getLevelBasedRecommendations_def extends_by_def axios_get_def not_trending_def
      level_request_url split: sum.splits)

lemma similar_loop_calls: "extends_by not_trending c (snd (similar_loop prov seen ms acc c))"
proof (induction ms arbitrary: acc c)
  case Nil
  show ?case by (simp add: extends_by_refl)
next
  case (Cons m ms)
  have step: "extends_by not_trending c (c @ [similar_request m])"
    by (simp add: extends_by_def not_trending_def similar_request_def)
  show ?case
    using extends_by_trans[OF step Cons.IH]
    by (simp add: axios_get_def split: sum.splits)
qed

lemma collaborative_calls:
  "extends_by not_trending c (snd (getCollaborativeRecommendations prov db userId c))"
  by (simp add: getCollaborativeRecommendations_def Let_def extends_by_refl similar_loop_calls)

lemma sources_1_to_5_calls:
  "extends_by not_trending c (snd (sources_1_to_5 prov db user userId c))"
proof -
  obtain r1 c1 where g1: "getCountryBasedRecommendations prov user c = (r1, c1)" by force
  obtain r2 c2 where g2: "getGenreBasedRecommendations prov user c1 = (r2, c2)" by force
  obtain r3 c3 where g3: "getLanguageBasedRecommendations prov user c2 = (r3, c3)" by force
  obtain r4 c4 where
    g4: "getLevelBasedRecommendations prov (level_name (getUserLevel db userId)) c3 = (r4, c4)"
    by force
  obtain r5 c5 where g5: "getCollaborativeRecommendations prov db userId c4 = (r5, c5)" by force
  have e1: "extends_by not_trending c c1" using country_calls[of c prov user] g1 by simp
  have e2: "extends_by not_trending c1 c2" using genre_calls[of c1 prov user] g2 by simp
  have e3: "extends_by not_trending c2 c3" using language_calls[of c2 prov user] g3 by simp
  have e4: "extends_by not_trending c3 c4"
    using level_calls[of c3 prov "level_name (getUserLevel db userId)"] g4 by simp
  have e5: "extends_by not_trending c4 c5"
    using collaborative_calls[of c4 prov db userId] g5 by simp
  have "snd (sources_1_to_5 prov db user userId c) = c5"
    by (simp add: sources_1_to_5_def Let_def g1 g2 g3 g4 g5)
  moreover have "extends_by not_trending c c5"
    using e1 e2 e3 e4 e5 extends_by_trans by blast
  ultimately show ?thesis by simp
qed

lemma trending_in_new_calls:
  "trending_request \<in> set (drop (length c) (snd (all_sources prov db user userId c)))
     \<longleftrightarrow> length (fst (sources_1_to_5 prov db user userId c)) < 20"
proof -
  obtain r5 c5 where s: "sources_1_to_5 prov db user userId c = (r5, c5)" by force
  from sources_1_to_5_calls[of c prov db user userId] s
  obtain new where c5: "c5 = c @ new" and new: "list_all not_trending new"
    by (auto simp: extends_by_iff)
  from new have nt: "trending_request \<notin> set new"
    by (auto simp: list_all_iff not_trending_def trending_request_def)
  show ?thesis
    using nt by (simp add: all_sources_def s c5 getTrendingRecommendations_def axios_get_def
        split: sum.splits)
qed

text \<open>
  C6. In a run of \<open>generateRecommendationsForUser\<close> for a stored user, the request for the
  weekly trending list is among the provider calls of the run if and only if sources 1 to
  5 together produced fewer than 20 candidates; and every candidate of the trending
  generator has \<open>collaborativeScore = 0.8\<close> with \<open>genreMatch\<close> and \<open>languageMatch\<close> zero.
\<close>

theorem trending_fallback_iff:
  assumes "getUser db userId = Some user"
  shows "(trending_request \<in> set (drop (length calls)
              (snd (snd (generateRecommendationsForUser prov userId db calls))))
          \<longleftrightarrow> length (fst (sources_1_to_5 prov (clearUserRecommendations db userId)
                                user userId calls)) < 20)
       \<and> (\<forall>r \<in> set (fst (getTrendingRecommendations prov calls')).
            collaborativeScore r = 0.8 \<and> genreMatch r = 0 \<and> languageMatch r = 0)"
proof
  have "snd (snd (generateRecommendationsForUser prov userId db calls)) =
        snd (all_sources prov (clearUserRecommendations db userId) user userId calls)"
    using assms by (simp add: generateRecommendationsForUser_def Let_def split_beta)
  then show "trending_request \<in> set (drop (length calls)
              (snd (snd (generateRecommendationsForUser prov userId db calls))))
          \<longleftrightarrow> length (fst (sources_1_to_5 prov (clearUserRecommendations db userId)
                                user userId calls)) < 20"
    by (simp add: trending_in_new_calls)
  show "\<forall>r \<in> set (fst (getTrendingRecommendations prov calls')).
            collaborativeScore r = 0.8 \<and> genreMatch r = 0 \<and> languageMatch r = 0"
    by (auto simp: getTrendingRecommendations_def axios_get_def candidate_def split: sum.splits)
qed

text \<open>
  A user without preferences or interactions: the level source alone yields the page. With
  12 movies on it the trending list is requested, with 25 it is not.
\<close>

theorem trending_fallback_iff_witness:
  "getUser (sample_db (sample_user 1 None)) 1 = Some (sample_user 1 None)
   \<and> length (fst (sources_1_to_5
                    (two_page_provider (replicate 12 (sample_movie 1 [])) [sample_movie 3 []])
                    (clearUserRecommendations (sample_db (sample_user 1 None)) 1)
                    (sample_user 1 None) 1 [])) = 12
   \<and> trending_request \<in> set (drop (length ([]::request list))
        (snd (snd (generateRecommendationsForUser
                     (two_page_provider (replicate 12 (sample_movie 1 [])) [sample_movie 3 []])
                     1 (sample_db (sample_user 1 None)) []))))
   \<and> length (fst (sources_1_to_5
                    (two_page_provider (replicate 25 (sample_movie 1 [])) [sample_movie 3 []])
                    (clearUserRecommendations (sample_db (sample_user 1 None)) 1)
                    (sample_user 1 None) 1 [])) = 25
   \<and> trending_request \<notin> set (drop (length ([]::request list))
        (snd (snd (generateRecommendationsForUser
                     (two_page_provider (replicate 25 (sample_movie 1 [])) [sample_movie 3 []])
                     1 (sample_db (sample_user 1 None)) []))))
   \<and> candidate 3 0 0 0.8 \<in> set (fst (getTrendingRecommendations
        (two_page_provider (replicate 12 (sample_movie 1 [])) [sample_movie 3 []]) []))
   \<and> collaborativeScore (candidate 3 0 0 0.8) = 0.8
   \<and> genreMatch (candidate 3 0 0 0.8) = 0 \<and> languageMatch (candidate 3 0 0 0.8) = 0"
proof -
  let ?u = "sample_user 1 None"
  let ?db = "sample_db ?u"
  let ?p12 = "two_page_provider (replicate 12 (sample_movie 1 [])) [sample_movie 3 []]"
  let ?p25 = "two_page_provider (replicate 25 (sample_movie 1 [])) [sample_movie 3 []]"
  have h: "getUser ?db 1 = Some ?u"
    by (simp add: getUser_def sample_db_def sample_user_def)
  have n12: "length (fst (sources_1_to_5 ?p12 (clearUserRecommendations ?db 1) ?u 1 [])) = 12"
    by (simp add: sources_1_to_5_def clearUserRecommendations_def generator_defs sample_defs
        request_defs Let_def)
  have n25: "length (fst (sources_1_to_5 ?p25 (clearUserRecommendations ?db 1) ?u 1 [])) = 25"
    by (simp add: sources_1_to_5_def clearUserRecommendations_def generator_defs sample_defs
        request_defs Let_def)
  have t: "candidate 3 0 0 0.8 \<in> set (fst (getTrendingRecommendations ?p12 []))"
    by (simp add: generator_defs sample_defs request_defs)
  from trending_fallback_iff[OF h, where prov = ?p12 and calls = "[]" and calls' = "[]"] n12
  have a: "trending_request \<in> set (drop (length ([]::request list))
        (snd (snd (generateRecommendationsForUser ?p12 1 ?db []))))"
    by simp
  from trending_fallback_iff[OF h, where prov = ?p25 and calls = "[]" and calls' = "[]"] n25
  have b: "trending_request \<notin> set (drop (length ([]::request list))
        (snd (snd (generateRecommendationsForUser ?p25 1 ?db []))))"
    by simp
  from trending_fallback_iff[OF h, where prov = ?p12 and calls = "[]" and calls' = "[]"] t
  have c: "collaborativeScore (candidate 3 0 0 0.8) = 0.8
     \<and> genreMatch (candidate 3 0 0 0.8) = 0 \<and> languageMatch (candidate 3 0 0 0.8) = 0"
    by blast
  from h n12 a n25 b t c show ?thesis by blast
qed

section \<open>Properties of the generators\<close>

text \<open>
  C7, as stated: an unrecognized level name gets the query profile of \<open>Beginner\<close>. The
  \<^verbatim>\<open>default\<close> branch of the switch issues a query of its own (sorted by vote average, at
  least 1000 votes, no minimum rating), so the request for the level ``Novice'' is not the
  request for ``Beginner''.
\<close>

theorem unknown_level_is_not_beginner:
  "level_request ''Novice'' \<noteq> level_request ''Beginner''"
  by (simp add: level_request_def beginner_request_def default_request_def)

text \<open>
  C7, amended. The level-based generator issues exactly one request, chosen among five
  fixed, pairwise different query profiles: one for each of the level names \<open>Beginner\<close>,
  \<open>Explorer\<close>, \<open>Cinephile\<close> and \<open>Connoisseur\<close>, and a fifth for every other level name.
  Every candidate it emits has \<open>collaborativeScore = 1.0\<close> and \<open>genreMatch\<close> and
  \<open>languageMatch\<close> zero, whichever profile was used.
\<close>

theorem level_profiles:
  "snd (getLevelBasedRecommendations prov lvl calls) = calls @ [level_request lvl]
   \<and> level_request ''Beginner'' = beginner_request
   \<and> level_request ''Explorer'' = explorer_request
   \<and> level_request ''Cinephile'' = cinephile_request
   \<and> level_request ''Connoisseur'' = connoisseur_request
   \<and> (lvl \<notin> {''Beginner'', ''Explorer'', ''Cinephile'', ''Connoisseur''}
        \<longrightarrow> level_request lvl = default_request)
   \<and> distinct [beginner_request, explorer_request, cinephile_request,
                 connoisseur_request, default_request]
   \<and> (\<forall>r \<in> set (fst (getLevelBasedRecommendations prov lvl calls)).
         collaborativeScore r = 1.0 \<and> genreMatch r = 0 \<and> languageMatch r = 0)"
proof -
  have a: "snd (getLevelBasedRecommendations prov lvl calls) = calls @ [level_request lvl]"
    by (simp add: getLevelBasedRecommendations_def axios_get_def split: sum.splits)
  have b: "level_request ''Beginner'' = beginner_request"
    "level_request ''Explorer'' = explorer_request"
    "level_request ''Cinephile'' = cinephile_request"
    "level_request ''Connoisseur'' = connoisseur_request"
    by (simp_all add: level_request_def)
  have c: "lvl \<notin> {''Beginner'', ''Explorer'', ''Cinephile'', ''Connoisseur''}
        \<longrightarrow> level_request lvl = default_request"
    by (simp add: level_request_def)
  have d: "distinct [beginner_request, explorer_request, cinephile_request,
                 connoisseur_request, default_request]"
    by (simp add: beginner_request_def explorer_request_def cinephile_request_def
        connoisseur_request_def default_request_def)
  have e: "\<forall>r \<in> set (fst (getLevelBasedRecommendations prov lvl calls)).
         collaborativeScore r = 1.0 \<and> genreMatch r = 0 \<and> languageMatch r = 0"
    by (auto simp: getLevelBasedRecommendations_def axios_get_def candidate_def split: sum.splits)
  from a b c d e show ?thesis by blast
qed

theorem level_profiles_witness:
  "''Novice'' \<notin> {''Beginner'', ''Explorer'', ''Cinephile'', ''Connoisseur''}
   \<and> level_request ''Novice'' = default_request
   \<and> snd (getLevelBasedRecommendations (constant_provider [sample_movie 11 [18]]) ''Novice'' [])
       = [default_request]
   \<and> candidate 11 0 0 1 \<in>
        set (fst (getLevelBasedRecommendations (constant_provider [sample_movie 11 [18]]) ''Novice'' []))
   \<and> collaborativeScore (candidate 11 0 0 1) = 1
   \<and> genreMatch (candidate 11 0 0 1) = 0 \<and> languageMatch (candidate 11 0 0 1) = 0"
proof -
  let ?p = "constant_provider [sample_movie 11 [18]]"
  have n: "''Novice'' \<notin> {''Beginner'', ''Explorer'', ''Cinephile'', ''Connoisseur''}"
    by simp
  have m: "candidate 11 0 0 1 \<in> set (fst (getLevelBasedRecommendations ?p ''Novice'' []))"
    by (simp add: getLevelBasedRecommendations_def axios_get_def constant_provider_def
        sample_movie_def)
  from level_profiles[of ?p "''Novice''" "[]"] n m show ?thesis
    by simp
qed

text \<open>
  The number of list entries that pass a membership test is the size of the intersection
  when the list repeats no entry.
\<close>

lemma card_filter_mem:
  assumes "distinct xs"
  shows "length (filter (\<lambda>i. i \<in> A) xs) = card (set xs \<inter> A)"
proof -
  from assms have "distinct (filter (\<lambda>i. i \<in> A) xs)" by simp
  then have "length (filter (\<lambda>i. i \<in> A) xs) = card (set (filter (\<lambda>i. i \<in> A) xs))"
    by (rule distinct_card[symmetric])
  also have "set (filter (\<lambda>i. i \<in> A) xs) = set xs \<inter> A" by auto
  finally show ?thesis .
qed

lemma genre_candidate_spec:
  assumes "distinct gs" "distinct (genre_ids movie)"
  shows "genre_candidate gs movie =
           \<lparr>movieId = id_movie movie, score = 0, genreMatch = spec_genreMatch gs movie,
            languageMatch = 0, collaborativeScore = 0\<rparr>"
  using assms
  by (simp add: genre_candidate_def candidate_def spec_genreMatch_def Let_def
      card_filter_mem distinct_card)

text \<open>
  C8. Genre id collections repeat no id (the preferred genres are a set of unique ids, and
  so is the genre tagging of a movie). The genre-based generator queries the provider only
  when the user has at least one preferred genre and otherwise returns the empty list. For
  every movie of the page it emits \<open>genreMatch\<close> = (number of the user's preferred genre ids
  present on the movie / number of the user's preferred genre ids) \<open>\<times>\<close> 1.2, computed in
  doubles, with \<open>score\<close>, \<open>languageMatch\<close> and \<open>collaborativeScore\<close> zero. For the preferred
  genres [28, 12] and a movie with genre ids [28, 16], \<open>genreMatch\<close> is 0.6.
\<close>

theorem genre_match_formula:
  "snd (getGenreBasedRecommendations prov user calls)
     = (if pref_genres user = [] then calls else calls @ [genre_request (pref_genres user)])
   \<and> (pref_genres user = [] \<longrightarrow> fst (getGenreBasedRecommendations prov user calls) = [])
   \<and> (pref_genres user \<noteq> [] \<and> distinct (pref_genres user)
        \<and> prov calls (genre_request (pref_genres user)) = Inr results
        \<and> (\<forall>movie \<in> set results. distinct (genre_ids movie))
       \<longrightarrow> fst (getGenreBasedRecommendations prov user calls) =
             map (\<lambda>movie.
                    \<lparr>movieId = id_movie movie, score = 0,
                     genreMatch = spec_genreMatch (pref_genres user) movie,
                     languageMatch = 0, collaborativeScore = 0\<rparr>) results)"
proof -
  have a: "snd (getGenreBasedRecommendations prov user calls)
     = (if pref_genres user = [] then calls else calls @ [genre_request (pref_genres user)])"
    by (simp add: getGenreBasedRecommendations_def axios_get_def Let_def split: sum.splits)
  have b: "pref_genres user = [] \<longrightarrow> fst (getGenreBasedRecommendations prov user calls) = []"
    by (simp add: getGenreBasedRecommendations_def)
  have c: "pref_genres user \<noteq> [] \<and> distinct (pref_genres user)
        \<and> prov calls (genre_request (pref_genres user)) = Inr results
        \<and> (\<forall>movie \<in> set results. distinct (genre_ids movie))
       \<longrightarrow> fst (getGenreBasedRecommendations prov user calls) =
             map (\<lambda>movie.
                    \<lparr>movieId = id_movie movie, score = 0,
                     genreMatch = spec_genreMatch (pref_genres user) movie,
                     languageMatch = 0, collaborativeScore = 0\<rparr>) results"
    by (simp add: getGenreBasedRecommendations_def axios_get_def Let_def genre_candidate_spec)
  from a b c show ?thesis by blast
qed

text \<open>
  The example of the claim: one of the two preferred genres is on the movie, and
  \<open>genreMatch\<close> is the double written 0.6. With one of three preferred genres it is
  0.39999999999999997.
\<close>

theorem genre_match_formula_witness:
  "pref_genres (sample_user 1 None) = []
   \<and> getGenreBasedRecommendations (constant_provider [sample_movie 603 [28, 16]])
        (sample_user 1 None) [] = ([], [])
   \<and> pref_genres (sample_user 1 (Some (genre_prefs [28, 12]))) \<noteq> []
   \<and> distinct (pref_genres (sample_user 1 (Some (genre_prefs [28, 12]))))
   \<and> constant_provider [sample_movie 603 [28, 16]] []
        (genre_request (pref_genres (sample_user 1 (Some (genre_prefs [28, 12])))))
       = Inr [sample_movie 603 [28, 16]]
   \<and> distinct (genre_ids (sample_movie 603 [28, 16]))
   \<and> getGenreBasedRecommendations (constant_provider [sample_movie 603 [28, 16]])
            (sample_user 1 (Some (genre_prefs [28, 12]))) []
       = ([\<lparr>movieId = 603, score = 0, genreMatch = 5404319552844595 / 9007199254740992,
             languageMatch = 0, collaborativeScore = 0\<rparr>],
          [genre_request [28, 12]])
   \<and> spec_genreMatch [28, 12] (sample_movie 603 [28, 16]) = 5404319552844595 / 9007199254740992
   \<and> fl 0.6 = 5404319552844595 / 9007199254740992
   \<and> spec_genreMatch [28, 12, 16] (sample_movie 604 [12, 99])
        = 7205759403792793 / 18014398509481984
   \<and> genreMatch (genre_candidate [28, 12, 16] (sample_movie 604 [12, 99]))
        = 7205759403792793 / 18014398509481984"
proof -
  let ?p = "constant_provider [sample_movie 603 [28, 16]]"
  let ?v = "sample_user 1 None"
  let ?u = "sample_user 1 (Some (genre_prefs [28, 12]))"
  let ?m = "sample_movie 603 [28, 16]"
  have g0: "pref_genres ?v = []"
    by (simp add: pref_genres_def sample_user_def)
  have g: "pref_genres ?u = [28, 12]"
    by (simp add: pref_genres_def sample_user_def genre_prefs_def)
  have page: "?p [] (genre_request (pref_genres ?u)) = Inr [?m]"
    by (simp add: constant_provider_def)
  have d: "distinct (pref_genres ?u)" "\<forall>movie \<in> set [?m]. distinct (genre_ids movie)"
    by (simp_all add: g sample_movie_def)
  have s: "spec_genreMatch [28, 12] ?m = 5404319552844595 / 9007199254740992"
    "fl 0.6 = 5404319552844595 / 9007199254740992"
    "spec_genreMatch [28, 12, 16] (sample_movie 604 [12, 99])
        = 7205759403792793 / 18014398509481984"
    "genreMatch (genre_candidate [28, 12, 16] (sample_movie 604 [12, 99]))
        = 7205759403792793 / 18014398509481984"
    by code_simp+
  from genre_match_formula[of ?p ?v "[]"] g0
  have r0: "getGenreBasedRecommendations ?p ?v [] = ([], [])"
    by (simp add: prod_eq_iff)
  from genre_match_formula[of ?p ?u "[]" "[?m]"] g page d
  have "snd (getGenreBasedRecommendations ?p ?u []) = [genre_request [28, 12]]"
    and "fst (getGenreBasedRecommendations ?p ?u []) =
      [\<lparr>movieId = id_movie ?m, score = 0, genreMatch = spec_genreMatch [28, 12] ?m,
         languageMatch = 0, collaborativeScore = 0\<rparr>]"
    by simp_all
  moreover have "id_movie ?m = 603"
    by (simp add: sample_movie_def)
  ultimately have r: "getGenreBasedRecommendations ?p ?u [] =
      ([\<lparr>movieId = 603, score = 0, genreMatch = 5404319552844595 / 9007199254740992,
          languageMatch = 0, collaborativeScore = 0\<rparr>], [genre_request [28, 12]])"
    by (simp add: prod_eq_iff s)
  from g0 r0 g page d r s show ?thesis by simp
qed

section \<open>Properties of the onboarding recommender\<close>




lemmas onboarding_defs = getOnboardingRecommendations_def onboarding_try_def popular_ids_def
  combined_pass_def country_pass_def genre_language_pass_def push_new_def has_length_def
  falsy_str_def axios_get_def






text \<open>
  C10. \<open>getOnboardingRecommendations\<close> never fails: for every preferences value and every
  behaviour of the provider it returns a list, and when an error leaves the body of its
  outer \<^verbatim>\<open>try\<close> (past the handlers of the three passes) the list is empty.
\<close>

theorem onboarding_never_throws:
  "(\<exists>ids. fst (getOnboardingRecommendations prov prefs calls) = Inr ids)
   \<and> (\<forall>e. fst (onboarding_try prov prefs calls) = Inl e \<longrightarrow>
          fst (getOnboardingRecommendations prov prefs calls) = Inr [])"
  by (auto simp: getOnboardingRecommendations_def split: prod.splits sum.splits)

text \<open>With the provider down, the request for the popular page fails and the result is empty.\<close>

theorem onboarding_never_throws_witness:
  "fst (onboarding_try failing_provider
          \<lparr>genres = Some [], languages = Some [], favoriteMovies = Some [], country = None\<rparr> [])
     = Inl (Error ''Network Error'')
   \<and> fst (getOnboardingRecommendations failing_provider
          \<lparr>genres = Some [], languages = Some [], favoriteMovies = Some [], country = None\<rparr> [])
     = Inr []
   \<and> fst (onboarding_try failing_provider (genre_prefs [28]) []) = Inl (Error ''Network Error'')
   \<and> fst (getOnboardingRecommendations failing_provider (genre_prefs [28]) []) = Inr []"
proof -
  let ?none = "\<lparr>genres = Some [], languages = Some [], favoriteMovies = Some [], country = None\<rparr>"
  have a: "fst (onboarding_try failing_provider ?none []) = Inl (Error ''Network Error'')"
    by (simp add: onboarding_defs failing_provider_def)
  have b: "fst (onboarding_try failing_provider (genre_prefs [28]) []) = Inl (Error ''Network Error'')"
    by (simp add: onboarding_defs failing_provider_def genre_prefs_def Let_def)
  from onboarding_never_throws[of failing_provider ?none "[]"] a
  have c: "fst (getOnboardingRecommendations failing_provider ?none []) = Inr []" by blast
  from onboarding_never_throws[of failing_provider "genre_prefs [28]" "[]"] b
  have d: "fst (getOnboardingRecommendations failing_provider (genre_prefs [28]) []) = Inr []"
    by blast
  from a b c d show ?thesis by blast
qed

end
